theory Spec2Isabelle
  imports Complex_Main "HOL-Library.Char_ord" "HOL-Library.List_Lexorder"
    "HOL-Library.Multiset" "HOL-Library.Sublist" "HOL-Library.AList"
    "HOL-Library.Monad_Syntax"
begin

section \<open>Schemas and values\<close>

text \<open>
  The structs of the schema file: a column definition and a table schema. The fields
  keep the Go names; \<open>name\<close> and \<open>columns\<close> occur in more than one struct and are
  written qualified (\<open>columnDef.name\<close>, \<open>tableSchema.columns\<close>).
\<close>

record columnDef =
  name :: string
  dataType :: string
  nullable :: bool

record tableSchema =
  name :: string
  columns :: "columnDef list"

record foreignKey =
  childTable :: string
  columns :: "string list"
  parentTable :: string

text \<open>
  The \<open>interface{}\<close> values the loader hands to the storage engine: \<open>nil\<close>, a string, or
  a \<open>float64\<close>. The float type is a parameter \<open>'f\<close>: the only float the program ever
  makes is the result of \<open>strconv.ParseFloat(val, 64)\<close>, a library function that the
  model takes as the parameter \<open>parseFloat\<close> (\<open>None\<close> when it returns an error).
\<close>

datatype 'f goValue = VNil | VString string | VFloat 'f

subsection \<open>loader.go: convertValue\<close>

definition convertValue :: "(string \<Rightarrow> 'f option) \<Rightarrow> string \<Rightarrow> columnDef \<Rightarrow> 'f goValue" where
  "convertValue parseFloat val col =
     (if val = [] \<and> nullable col then VNil
      else if dataType col = ''REAL'' \<and> val \<noteq> [] then
        (case parseFloat val of Some f \<Rightarrow> VFloat f | None \<Rightarrow> VString val)
      else VString val)"


section \<open>Strings\<close>

text \<open>
  Go strings are byte sequences, as \<open>string\<close> is here. The bytes the program names:
\<close>

abbreviation (input) LF :: char where "LF \<equiv> CHR 0x0A"
abbreviation (input) CR :: char where "CR \<equiv> CHR 0x0D"
abbreviation (input) DQ :: char where "DQ \<equiv> CHR 0x22"
abbreviation (input) BSL :: char where "BSL \<equiv> CHR 0x5C"

definition BOM :: string where
  "BOM = [CHR 0xEF, CHR 0xBB, CHR 0xBF]"

definition HasSuffix :: "string \<Rightarrow> string \<Rightarrow> bool" where
  "HasSuffix s suf = suffix suf s"

definition TrimSuffix :: "string \<Rightarrow> string \<Rightarrow> string" where
  "TrimSuffix s suf = (if HasSuffix s suf then take (length s - length suf) s else s)"

text \<open>
  \<open>strings.TrimSpace\<close> removes the leading and trailing white space runes, as
  \<open>unicode.IsSpace\<close> defines them. \<open>spaceRunes\<close> lists their UTF-8 encodings: the six
  ASCII ones, U+0085, U+00A0, U+1680, U+2000 to U+200A, U+2028, U+2029, U+202F, U+205F
  and U+3000.
\<close>

definition spaceRunes :: "string list" where
  "spaceRunes =
     [[CHR 0x09], [CHR 0x0A], [CHR 0x0B], [CHR 0x0C], [CHR 0x0D], [CHR 0x20],
      [CHR 0xC2, CHR 0x85], [CHR 0xC2, CHR 0xA0], [CHR 0xE1, CHR 0x9A, CHR 0x80],
      [CHR 0xE2, CHR 0x80, CHR 0x80], [CHR 0xE2, CHR 0x80, CHR 0x81],
      [CHR 0xE2, CHR 0x80, CHR 0x82], [CHR 0xE2, CHR 0x80, CHR 0x83],
      [CHR 0xE2, CHR 0x80, CHR 0x84], [CHR 0xE2, CHR 0x80, CHR 0x85],
      [CHR 0xE2, CHR 0x80, CHR 0x86], [CHR 0xE2, CHR 0x80, CHR 0x87],
      [CHR 0xE2, CHR 0x80, CHR 0x88], [CHR 0xE2, CHR 0x80, CHR 0x89],
      [CHR 0xE2, CHR 0x80, CHR 0x8A], [CHR 0xE2, CHR 0x80, CHR 0xA8],
      [CHR 0xE2, CHR 0x80, CHR 0xA9], [CHR 0xE2, CHR 0x80, CHR 0xAF],
      [CHR 0xE2, CHR 0x81, CHR 0x9F], [CHR 0xE3, CHR 0x80, CHR 0x80]]"

lemma spaceRunes_nonempty: "w \<in> set spaceRunes \<Longrightarrow> w \<noteq> []"
  by (auto simp: spaceRunes_def)

function trimLeft :: "string \<Rightarrow> string" where
  "trimLeft s =
     (case find (\<lambda>w. prefix w s) spaceRunes of
        None \<Rightarrow> s
      | Some w \<Rightarrow> trimLeft (drop (length w) s))"
  by pat_completeness auto
termination
proof (relation "measure length")
  show "wf (measure length)" by simp
next
  fix s w assume "find (\<lambda>w. prefix w s) spaceRunes = Some w"
  then have "w \<in> set spaceRunes" "prefix w s"
    by (auto simp: find_Some_iff)
  then have "w \<noteq> []" "length w \<le> length s"
    by (auto simp: spaceRunes_nonempty prefix_length_le)
  then show "(drop (length w) s, s) \<in> measure length"
    by (cases w) auto
qed

function trimRight :: "string \<Rightarrow> string" where
  "trimRight s =
     (case find (\<lambda>w. suffix w s) spaceRunes of
        None \<Rightarrow> s
      | Some w \<Rightarrow> trimRight (take (length s - length w) s))"
  by pat_completeness auto
termination
proof (relation "measure length")
  show "wf (measure length)" by simp
next
  fix s w assume "find (\<lambda>w. suffix w s) spaceRunes = Some w"
  then have "w \<in> set spaceRunes" "suffix w s"
    by (auto simp: find_Some_iff)
  then have "w \<noteq> []" "length w \<le> length s"
    by (auto simp: spaceRunes_nonempty suffix_length_le)
  then show "(take (length s - length w) s, s) \<in> measure length"
    by (cases w) auto
qed

declare trimLeft.simps [simp del] trimRight.simps [simp del]

definition TrimSpace :: "string \<Rightarrow> string" where
  "TrimSpace s = trimRight (trimLeft s)"

text \<open>\<open>strings.ReplaceAll(s, " ", "_")\<close> and \<open>strings.Join\<close>.\<close>

definition ReplaceAll_space_underscore :: "string \<Rightarrow> string" where
  "ReplaceAll_space_underscore s = map (\<lambda>c. if c = CHR '' '' then CHR ''_'' else c) s"

fun Join :: "string list \<Rightarrow> string \<Rightarrow> string" where
  "Join [] sep = []"
| "Join [x] sep = x"
| "Join (x # y # ys) sep = x @ sep @ Join (y # ys) sep"

section \<open>The metadata parser\<close>

subsection \<open>normalizeCR\<close>

text \<open>A bare \<open>\r\<close> (one not followed by \<open>\n\<close>) becomes \<open>\n\<close>; \<open>\r\n\<close> is copied.\<close>

fun normalizeCR :: "string \<Rightarrow> string" where
  "normalizeCR [] = []"
| "normalizeCR (c # cs) =
     (if c = CR then
        (case cs of
           [] \<Rightarrow> [LF]
         | d # ds \<Rightarrow> if d = LF then CR # LF # normalizeCR ds else LF # normalizeCR cs)
      else c # normalizeCR cs)"

subsection \<open>The record reader (\<open>encoding/csv\<close>)\<close>

text \<open>
  The library's \<open>csv.Reader\<close> with its default settings (comma \<open>,\<close>, no comment
  character, \<open>LazyQuotes\<close> and \<open>TrimLeadingSpace\<close> off), as the package documents it.
  The reader takes its input line by line and first normalises each line's end:
  \<open>\r\n\<close> becomes \<open>\n\<close>, and a \<open>\r\<close> that ends the input is dropped (\<open>csvLineEnds\<close>).
  Blank lines are skipped. A field that starts with a quote is a quoted field: it runs to
  the closing quote, over line ends if need be, \<open>""\<close> standing for one quote; after the
  closing quote only a comma or the end of the line may follow (\<open>ErrQuote\<close> otherwise,
  and when the input ends inside the field). A quote inside a field that did not start
  with one is \<open>ErrBareQuote\<close>. \<open>csvRecords\<close> returns the records read before the first
  error or the end of the input, and that error (\<open>None\<close> at the end of the input,
  \<open>io.EOF\<close>): the callers all stop at the first error.
\<close>

datatype csvError = ErrBareQuote | ErrQuote | ErrFieldCount

datatype csvMode = RecordStart | FieldStart | Unquoted | Quoted | QuoteSeen

fun csvLineEnds :: "string \<Rightarrow> string" where
  "csvLineEnds [] = []"
| "csvLineEnds [c] = (if c = CR then [] else [c])"
| "csvLineEnds (c # d # cs) =
     (if c = CR \<and> d = LF then LF # csvLineEnds cs else c # csvLineEnds (d # cs))"

definition csvEmit :: "string list \<Rightarrow> string list list \<times> csvError option
    \<Rightarrow> string list list \<times> csvError option" where
  "csvEmit r p = (r # fst p, snd p)"

fun csvScan :: "csvMode \<Rightarrow> string \<Rightarrow> string list \<Rightarrow> string
    \<Rightarrow> string list list \<times> csvError option" where
  "csvScan RecordStart fld rcd [] = ([], None)"
| "csvScan FieldStart fld rcd [] = ([rcd @ [[]]], None)"
| "csvScan Unquoted fld rcd [] = ([rcd @ [fld]], None)"
| "csvScan Quoted fld rcd [] = ([], Some ErrQuote)"
| "csvScan QuoteSeen fld rcd [] = ([rcd @ [fld]], None)"
| "csvScan RecordStart fld rcd (c # cs) =
     (if c = LF then csvScan RecordStart [] [] cs
      else if c = DQ then csvScan Quoted [] [] cs
      else if c = CHR '','' then csvScan FieldStart [] [[]] cs
      else csvScan Unquoted [c] [] cs)"
| "csvScan FieldStart fld rcd (c # cs) =
     (if c = LF then csvEmit (rcd @ [[]]) (csvScan RecordStart [] [] cs)
      else if c = DQ then csvScan Quoted [] rcd cs
      else if c = CHR '','' then csvScan FieldStart [] (rcd @ [[]]) cs
      else csvScan Unquoted [c] rcd cs)"
| "csvScan Unquoted fld rcd (c # cs) =
     (if c = LF then csvEmit (rcd @ [fld]) (csvScan RecordStart [] [] cs)
      else if c = CHR '','' then csvScan FieldStart [] (rcd @ [fld]) cs
      else if c = DQ then ([], Some ErrBareQuote)
      else csvScan Unquoted (fld @ [c]) rcd cs)"
| "csvScan Quoted fld rcd (c # cs) =
     (if c = DQ then csvScan QuoteSeen fld rcd cs
      else csvScan Quoted (fld @ [c]) rcd cs)"
| "csvScan QuoteSeen fld rcd (c # cs) =
     (if c = DQ then csvScan Quoted (fld @ [DQ]) rcd cs
      else if c = CHR '','' then csvScan FieldStart [] (rcd @ [fld]) cs
      else if c = LF then csvEmit (rcd @ [fld]) (csvScan RecordStart [] [] cs)
      else ([], Some ErrQuote))"

definition csvRecords :: "string \<Rightarrow> string list list \<times> csvError option" where
  "csvRecords s = csvScan RecordStart [] [] (csvLineEnds s)"

text \<open>
  \<open>FieldsPerRecord\<close>: when positive, every record must have that many fields
  (\<open>ErrFieldCount\<close> otherwise); when 0, the first record sets it; when negative, no check
  is made. \<open>csv.NewReader\<close> leaves it at 0.
\<close>

fun csvFieldCount :: "int \<Rightarrow> string list list \<Rightarrow> csvError option
    \<Rightarrow> string list list \<times> csvError option" where
  "csvFieldCount n [] e = ([], e)"
| "csvFieldCount n (r # rs) e =
     (if n > 0 \<and> int (length r) \<noteq> n then ([], Some ErrFieldCount)
      else csvEmit r (csvFieldCount (if n = 0 then int (length r) else n) rs e))"

definition csvReadAll :: "int \<Rightarrow> string \<Rightarrow> string list list \<times> csvError option" where
  "csvReadAll fieldsPerRecord s =
     csvFieldCount fieldsPerRecord (fst (csvRecords s)) (snd (csvRecords s))"

subsection \<open>parseSchemas\<close>

text \<open>
  A file of the zip archive: its name, and what \<open>Open\<close> and \<open>io.ReadAll\<close> yield. The
  tables are a Go map from table name to schema: here an association list with distinct
  keys, in the order the tables were first seen. Go iterates a map in no fixed order; the
  functions that iterate over one are proved not to depend on the order.
\<close>

datatype zipData = OpenFails | ReadFails | Content string

record zipFile =
  Name :: string
  data :: zipData

type_synonym tables = "(string \<times> tableSchema) list"

text \<open>
  The errors of the storage engine that the model tells apart, and the errors the
  program returns: one constructor for each \<open>fmt.Errorf\<close> (and each error passed on as
  it is) of the functions modelled here, holding what the message holds. Two returns of
  \<open>deduplicateParents\<close> have no constructor because they cannot be taken: \<open>Scan\<close>
  into an \<open>interface{}\<close> accepts every value, and \<open>Scan\<close> of a rowid into an
  \<open>int64\<close> accepts every rowid.
\<close>

datatype sqlError =
    NoSuchTable string
  | UniqueViolation string
  | EngineError string

datatype error =
    ErrOpen string
  | ErrReadFile string
  | ErrReadHeader string "csvError option"
  | ErrParse string csvError
  | ErrBegin sqlError
  | ErrPrepare sqlError
  | ErrCsv "csvError option"
  | ErrInsert sqlError
  | ErrCommit sqlError
  | ErrCreateIndex sqlError string
  | ErrFindDuplicates string sqlError
  | ErrFindRowids string sqlError
  | ErrDeleteDuplicate int string sqlError
  | ErrCreateIndexAfterDedup sqlError string
  | ErrForeignKeyCheck sqlError
  | ErrScanForeignKeyCheck
  | ErrForeignKeyCheckIteration sqlError
  | ErrDeleteOrphan int string sqlError
  | ErrDeduplicateParents error
  | ErrDeleteOrphans error
  | ErrFinalForeignKeyCheck sqlError
  | ErrViolationsRemain nat

text \<open>The body of the record loop: lines 66 to 96 of the schema file.\<close>

definition recordColumn :: "string list \<Rightarrow> columnDef" where
  "recordColumn record =
     (let colName = TrimSpace (record ! 1);
          dataType = TrimSpace (record ! 3);
          nullableStr = TrimSpace (record ! 4);
          colName = ReplaceAll_space_underscore colName;
          dataType = (if dataType = ''VARCHAR'' then ''TEXT''
                      else if dataType = ''NUMBER'' then ''REAL''
                      else dataType)
      in \<lparr>columnDef.name = colName, dataType = dataType, nullable = (nullableStr = ''Yes'')\<rparr>)"

definition addColumn :: "string \<Rightarrow> columnDef \<Rightarrow> tables \<Rightarrow> tables" where
  "addColumn tableName col tabs =
     (case map_of tabs tableName of
        None \<Rightarrow> tabs @ [(tableName, \<lparr>tableSchema.name = tableName, columns = [col]\<rparr>)]
      | Some ts \<Rightarrow>
          AList.map_entry tableName
            (\<lambda>ts. ts\<lparr>tableSchema.columns := tableSchema.columns ts @ [col]\<rparr>) tabs)"

definition addRecord :: "string list \<Rightarrow> tables \<Rightarrow> tables" where
  "addRecord record tabs =
     (if length record < 5 then tabs
      else addColumn (TrimSpace (record ! 0)) (recordColumn record) tabs)"

definition parseFile :: "zipFile \<Rightarrow> tables \<Rightarrow> error + tables" where
  "parseFile f tabs =
     (case data f of
        OpenFails \<Rightarrow> Inl (ErrOpen (Name f))
      | ReadFails \<Rightarrow> Inl (ErrReadFile (Name f))
      | Content raw \<Rightarrow>
          (case csvReadAll (- 1) (normalizeCR raw) of
             ([], e) \<Rightarrow> Inl (ErrReadHeader (Name f) e)
           | (header # records, Some e) \<Rightarrow> Inl (ErrParse (Name f) e)
           | (header # records, None) \<Rightarrow> Inr (fold addRecord records tabs)))"

fun parseFiles :: "zipFile list \<Rightarrow> tables \<Rightarrow> error + tables" where
  "parseFiles [] tabs = Inr tabs"
| "parseFiles (f # fs) tabs =
     (if \<not> HasSuffix (Name f) ''_CSV_DATA_STRUCTURE.csv'' then parseFiles fs tabs
      else (case parseFile f tabs of
              Inl e \<Rightarrow> Inl e
            | Inr tabs' \<Rightarrow> parseFiles fs tabs'))"

text \<open>
  The override loop at the end of \<open>parseSchemas\<close>. The table \<open>sentinelNulls\<close> is not
  among the source files; only its keys \<open>(table, column)\<close> are used, and the model takes
  them as a parameter.
\<close>

definition overrideNullable :: "string \<times> string \<Rightarrow> tables \<Rightarrow> tables" where
  "overrideNullable key tabs =
     AList.map_entry (fst key)
       (\<lambda>ts. ts\<lparr>tableSchema.columns :=
          map (\<lambda>c. if columnDef.name c = snd key then c\<lparr>nullable := True\<rparr> else c)
            (tableSchema.columns ts)\<rparr>) tabs"

definition parseSchemas :: "(string \<times> string) list \<Rightarrow> zipFile list \<Rightarrow> error + tables" where
  "parseSchemas sentinelNulls zr =
     (case parseFiles zr [] of
        Inl e \<Rightarrow> Inl e
      | Inr tabs \<Rightarrow> Inr (fold overrideNullable sentinelNulls tabs))"


section \<open>DDL synthesis\<close>

subsection \<open>The \<open>%q\<close> verb\<close>

text \<open>
  \<open>fmt.Sprintf("%q", s)\<close> is \<open>strconv.Quote s\<close>: the string between double quotes, with
  Go escape sequences. A byte below \<open>0x80\<close> is a rune of its own: the quote and the
  backslash get a backslash, a printable one (\<open>0x20\<close> to \<open>0x7E\<close>) stands for itself,
  and a control character is written \<open>\a \b \f \n \r \t \v\<close> or \<open>\x\<close> with two hex
  digits. How a run of bytes from \<open>0x80\<close> on is written depends on Go's UTF-8 decoder
  and Unicode tables; the model takes that as the parameter \<open>quoteRunes\<close>, applied to each
  maximal run of such bytes.
\<close>

definition hexDigit :: "nat \<Rightarrow> char" where
  "hexDigit n = ''0123456789abcdef'' ! (n mod 16)"

definition quoteByte :: "char \<Rightarrow> string" where
  "quoteByte c =
     (if c = DQ \<or> c = BSL then [BSL, c]
      else if 0x20 \<le> (of_char c :: nat) \<and> (of_char c :: nat) \<le> 0x7E then [c]
      else if c = CHR 0x07 then [BSL, CHR ''a'']
      else if c = CHR 0x08 then [BSL, CHR ''b'']
      else if c = CHR 0x0C then [BSL, CHR ''f'']
      else if c = CHR 0x0A then [BSL, CHR ''n'']
      else if c = CHR 0x0D then [BSL, CHR ''r'']
      else if c = CHR 0x09 then [BSL, CHR ''t'']
      else if c = CHR 0x0B then [BSL, CHR ''v'']
      else [BSL, CHR ''x'', hexDigit (of_char c div 16), hexDigit (of_char c)])"

fun quoteBytes :: "(string \<Rightarrow> string) \<Rightarrow> string \<Rightarrow> string \<Rightarrow> string" where
  "quoteBytes quoteRunes run [] = (if run = [] then [] else quoteRunes run)"
| "quoteBytes quoteRunes run (c # cs) =
     (if 0x80 \<le> (of_char c :: nat) then quoteBytes quoteRunes (run @ [c]) cs
      else (if run = [] then [] else quoteRunes run) @ quoteByte c @ quoteBytes quoteRunes [] cs)"

definition Quote :: "(string \<Rightarrow> string) \<Rightarrow> string \<Rightarrow> string" where
  "Quote quoteRunes s = [DQ] @ quoteBytes quoteRunes [] s @ [DQ]"

subsection \<open>generateDDL\<close>

text \<open>
  \<open>fkMap[name]\<close>: the constraints whose child is the table \<open>name\<close>, in the order of \<open>fks\<close>.
\<close>

definition fkMap :: "foreignKey list \<Rightarrow> string \<Rightarrow> foreignKey list" where
  "fkMap fks tname = filter (\<lambda>fk. childTable fk = tname) fks"

text \<open>
  The deduplication loop: a constraint is kept when its \<open>parentKey\<close>, the parent table
  and the columns joined by a comma, has not been seen.
\<close>

definition parentKey :: "foreignKey \<Rightarrow> string \<times> string" where
  "parentKey fk = (parentTable fk, Join (foreignKey.columns fk) '','')"

fun uniqueIndexes :: "(string \<times> string) list \<Rightarrow> foreignKey list \<Rightarrow> foreignKey list" where
  "uniqueIndexes seen [] = []"
| "uniqueIndexes seen (fk # fks) =
     (let pk = parentKey fk
      in if pk \<in> set seen then uniqueIndexes seen fks
         else fk # uniqueIndexes (pk # seen) fks)"

text \<open>The column lines of a table statement; \<open>hasFKs\<close> says that constraints follow.\<close>

fun columnLines :: "(string \<Rightarrow> string) \<Rightarrow> bool \<Rightarrow> columnDef list \<Rightarrow> string" where
  "columnLines quoteRunes hasFKs [] = []"
| "columnLines quoteRunes hasFKs (col # cols) =
     ''  '' @ Quote quoteRunes (columnDef.name col) @ '' '' @ dataType col
     @ (if \<not> nullable col then '' NOT NULL'' else [])
     @ (if cols \<noteq> [] \<or> hasFKs then '','' else [])
     @ [LF]
     @ columnLines quoteRunes hasFKs cols"

definition quotedCols :: "(string \<Rightarrow> string) \<Rightarrow> foreignKey \<Rightarrow> string" where
  "quotedCols quoteRunes fk = Join (map (Quote quoteRunes) (foreignKey.columns fk)) '', ''"

fun foreignKeyLines :: "(string \<Rightarrow> string) \<Rightarrow> foreignKey list \<Rightarrow> string" where
  "foreignKeyLines quoteRunes [] = []"
| "foreignKeyLines quoteRunes (fk # fks) =
     ''  FOREIGN KEY ('' @ quotedCols quoteRunes fk @ '') REFERENCES ''
     @ Quote quoteRunes (parentTable fk) @ '' ('' @ quotedCols quoteRunes fk @ '')''
     @ (if fks \<noteq> [] then '','' else [])
     @ [LF]
     @ foreignKeyLines quoteRunes fks"

definition createTableStmt :: "(string \<Rightarrow> string) \<Rightarrow> foreignKey list \<Rightarrow> tableSchema \<Rightarrow> string" where
  "createTableStmt quoteRunes tfks ts =
     ''CREATE TABLE '' @ Quote quoteRunes (tableSchema.name ts) @ '' ('' @ [LF]
     @ columnLines quoteRunes (tfks \<noteq> []) (tableSchema.columns ts)
     @ foreignKeyLines quoteRunes tfks
     @ '');''"

definition createIndexStmt :: "(string \<Rightarrow> string) \<Rightarrow> foreignKey \<Rightarrow> string" where
  "createIndexStmt quoteRunes fk =
     (let idxName = ''idx_'' @ parentTable fk @ ''_'' @ Join (foreignKey.columns fk) ''_''
      in ''CREATE UNIQUE INDEX '' @ Quote quoteRunes idxName @ '' ON ''
         @ Quote quoteRunes (parentTable fk) @ '' ('' @ quotedCols quoteRunes fk @ '');'')"

text \<open>
  The table names are sorted (\<open>sort.Strings\<close>: bytewise order) and each is looked up
  in the map; the lookup cannot miss, and the model emits nothing where it would.
  \<open>sort.Slice\<close> orders the index constraints by parent table. It is not stable, so
  the order of constraints on the same parent is the library's choice: the model takes
  the sort as the parameter \<open>sortSlice\<close>.
\<close>

definition generateDDL :: "(foreignKey list \<Rightarrow> foreignKey list) \<Rightarrow> (string \<Rightarrow> string)
    \<Rightarrow> tables \<Rightarrow> foreignKey list \<Rightarrow> string list \<times> string list" where
  "generateDDL sortSlice quoteRunes tabs fks =
     (let names = sort (map fst tabs);
          createTables =
            concat (map (\<lambda>tname. case map_of tabs tname of
                                    None \<Rightarrow> []
                                  | Some ts \<Rightarrow> [createTableStmt quoteRunes (fkMap fks tname) ts])
                        names);
          createIndexes = map (createIndexStmt quoteRunes) (sortSlice (uniqueIndexes [] fks))
      in (createTables, createIndexes))"

subsection \<open>foreignKeyDefs\<close>

definition FK :: "string \<Rightarrow> string list \<Rightarrow> string \<Rightarrow> foreignKey" where
  "FK child cols parent = \<lparr>childTable = child, columns = cols, parentTable = parent\<rparr>"

definition foreignKeyDefs :: "foreignKey list" where
  "foreignKeyDefs =
     [FK ''APT_RWY'' [''SITE_NO''] ''APT_BASE'',
      FK ''APT_RWY_END'' [''SITE_NO'', ''RWY_ID''] ''APT_RWY'',
      FK ''APT_ARS'' [''SITE_NO'', ''RWY_ID'', ''RWY_END_ID''] ''APT_RWY_END'',
      FK ''APT_ATT'' [''SITE_NO''] ''APT_BASE'',
      FK ''APT_CON'' [''SITE_NO''] ''APT_BASE'',
      FK ''APT_RMK'' [''SITE_NO''] ''APT_BASE'',
      FK ''NAV_CKPT'' [''NAV_ID'', ''NAV_TYPE''] ''NAV_BASE'',
      FK ''NAV_RMK'' [''NAV_ID'', ''NAV_TYPE''] ''NAV_BASE'',
      FK ''FIX_CHRT'' [''FIX_ID'', ''ICAO_REGION_CODE''] ''FIX_BASE'',
      FK ''FIX_NAV'' [''FIX_ID'', ''ICAO_REGION_CODE''] ''FIX_BASE'',
      FK ''AWY_SEG_ALT'' [''AWY_ID''] ''AWY_BASE'',
      FK ''ILS_GS'' [''SITE_NO'', ''RWY_END_ID'', ''ILS_LOC_ID''] ''ILS_BASE'',
      FK ''ILS_DME'' [''SITE_NO'', ''RWY_END_ID'', ''ILS_LOC_ID''] ''ILS_BASE'',
      FK ''ILS_MKR'' [''SITE_NO'', ''RWY_END_ID'', ''ILS_LOC_ID''] ''ILS_BASE'',
      FK ''ILS_RMK'' [''SITE_NO'', ''RWY_END_ID'', ''ILS_LOC_ID''] ''ILS_BASE'',
      FK ''ATC_SVC'' [''FACILITY_ID'', ''FACILITY_TYPE''] ''ATC_BASE'',
      FK ''ATC_ATIS'' [''FACILITY_ID'', ''FACILITY_TYPE''] ''ATC_BASE'',
      FK ''ATC_RMK'' [''FACILITY_ID'', ''FACILITY_TYPE''] ''ATC_BASE'',
      FK ''STAR_APT'' [''STAR_COMPUTER_CODE''] ''STAR_BASE'',
      FK ''STAR_RTE'' [''STAR_COMPUTER_CODE''] ''STAR_BASE'',
      FK ''DP_APT'' [''DP_COMPUTER_CODE''] ''DP_BASE'',
      FK ''DP_RTE'' [''DP_COMPUTER_CODE''] ''DP_BASE'',
      FK ''HPF_SPD_ALT'' [''HP_NAME'', ''HP_NO''] ''HPF_BASE'',
      FK ''HPF_CHRT'' [''HP_NAME'', ''HP_NO''] ''HPF_BASE'',
      FK ''HPF_RMK'' [''HP_NAME'', ''HP_NO''] ''HPF_BASE'',
      FK ''PFR_SEG'' [''ORIGIN_ID'', ''DSTN_ID'', ''PFR_TYPE_CODE'', ''ROUTE_NO''] ''PFR_BASE'',
      FK ''MTR_PT'' [''ROUTE_TYPE_CODE'', ''ROUTE_ID''] ''MTR_BASE'',
      FK ''MTR_AGY'' [''ROUTE_TYPE_CODE'', ''ROUTE_ID''] ''MTR_BASE'',
      FK ''MTR_SOP'' [''ROUTE_TYPE_CODE'', ''ROUTE_ID''] ''MTR_BASE'',
      FK ''MTR_TERR'' [''ROUTE_TYPE_CODE'', ''ROUTE_ID''] ''MTR_BASE'',
      FK ''MTR_WDTH'' [''ROUTE_TYPE_CODE'', ''ROUTE_ID''] ''MTR_BASE'',
      FK ''ARB_SEG'' [''LOCATION_ID''] ''ARB_BASE'',
      FK ''WXL_SVC'' [''WEA_ID''] ''WXL_BASE'',
      FK ''MAA_SHP'' [''MAA_ID''] ''MAA_BASE'',
      FK ''MAA_RMK'' [''MAA_ID''] ''MAA_BASE'',
      FK ''MAA_CON'' [''MAA_ID''] ''MAA_BASE'',
      FK ''PJA_CON'' [''PJA_ID''] ''PJA_BASE'',
      FK ''FSS_RMK'' [''FSS_ID''] ''FSS_BASE'']"

section \<open>Reading an index statement back\<close>

text \<open>
  \<open>uniqueIndexRe\<close> is \<open>ON\s+"([^"]+)"\s+\(([^)]+)\)\<close>. \<open>\s\<close> is one of tab, newline,
  form feed, carriage return and space. \<open>matchAt\<close> matches the expression at the start
  of a string: each repetition is followed by a character it cannot match, so it runs to
  the first such character and the match at a position is unique (\<open>spaces1\<close> is
  \<open>\s+\<close>, \<open>upTo c\<close> is \<open>([^c]+)c\<close>). \<open>FindStringSubmatch\<close> returns the leftmost
  match.
\<close>

definition isReSpace :: "char \<Rightarrow> bool" where
  "isReSpace c \<longleftrightarrow> c = CHR 0x09 \<or> c = CHR 0x0A \<or> c = CHR 0x0C \<or> c = CHR 0x0D \<or> c = CHR 0x20"

definition expect :: "char \<Rightarrow> string \<Rightarrow> string option" where
  "expect c s = (case s of [] \<Rightarrow> None | x # r \<Rightarrow> if x = c then Some r else None)"

definition spaces1 :: "string \<Rightarrow> string option" where
  "spaces1 s = (if takeWhile isReSpace s = [] then None else Some (dropWhile isReSpace s))"

definition upTo :: "char \<Rightarrow> string \<Rightarrow> (string \<times> string) option" where
  "upTo c s =
     (if takeWhile (\<lambda>x. x \<noteq> c) s = [] then None
      else (case dropWhile (\<lambda>x. x \<noteq> c) s of
              [] \<Rightarrow> None
            | x # r \<Rightarrow> Some (takeWhile (\<lambda>x. x \<noteq> c) s, r)))"

definition matchAt :: "string \<Rightarrow> (string \<times> string) option" where
  "matchAt s =
     do {
       r \<leftarrow> expect (CHR ''O'') s;
       r \<leftarrow> expect (CHR ''N'') r;
       r \<leftarrow> spaces1 r;
       r \<leftarrow> expect DQ r;
       (table, r) \<leftarrow> upTo DQ r;
       r \<leftarrow> spaces1 r;
       r \<leftarrow> expect (CHR ''('') r;
       (cols, r) \<leftarrow> upTo (CHR '')'') r;
       Some (table, cols)
     }"

fun FindStringSubmatch :: "string \<Rightarrow> (string \<times> string) option" where
  "FindStringSubmatch [] = matchAt []"
| "FindStringSubmatch (c # cs) =
     (case matchAt (c # cs) of
        Some m \<Rightarrow> Some m
      | None \<Rightarrow> FindStringSubmatch cs)"

text \<open>\<open>strings.Split(s, ",")\<close> and \<open>strings.Trim(s, "\"")\<close>.\<close>

fun Split_comma :: "string \<Rightarrow> string list" where
  "Split_comma [] = [[]]"
| "Split_comma (c # cs) =
     (if c = CHR '','' then [] # Split_comma cs
      else (case Split_comma cs of
              [] \<Rightarrow> [[c]]
            | x # xs \<Rightarrow> (c # x) # xs))"

definition Trim_quote :: "string \<Rightarrow> string" where
  "Trim_quote s = rev (dropWhile (\<lambda>c. c = DQ) (rev (dropWhile (\<lambda>c. c = DQ) s)))"

datatype parseError = CannotParseIndexStatement string

definition parseUniqueIndex :: "string \<Rightarrow> parseError + string \<times> string list" where
  "parseUniqueIndex stmt =
     (case FindStringSubmatch stmt of
        None \<Rightarrow> Inl (CannotParseIndexStatement stmt)
      | Some m \<Rightarrow> Inr (fst m, map (\<lambda>col. Trim_quote (TrimSpace col)) (Split_comma (snd m))))"

section \<open>The storage engine\<close>

text \<open>
  The program reaches SQLite through \<open>database/sql\<close>. The model keeps what the
  statements of the program read and write: for each table its columns and its rows, each
  row with its \<open>rowid\<close>, and the index statements that were accepted. \<open>dbTables db t\<close>
  is the table that the engine finds under the name \<open>t\<close> as \<open>%q\<close> writes it, if there
  is one. The rows hold the values as the engine stores them: NULL, text and floating
  point numbers, the kinds of value that \<open>loadCSV\<close> passes to the engine. No table is
  taken to have a column of its own with the name \<open>rowid\<close>, so that \<open>rowid\<close> in a
  statement is the rowid of the row.
\<close>

record 'f dbRow =
  rowid :: int
  vals :: "'f goValue list"

record 'f dbTable =
  tcolumns :: "columnDef list"
  rows :: "'f dbRow list"

record 'f database =
  dbTables :: "string \<rightharpoonup> 'f dbTable"
  dbIndexes :: "string list"

definition setRows :: "string \<Rightarrow> 'f dbRow list \<Rightarrow> 'f database \<Rightarrow> 'f database" where
  "setRows t rs db =
     (case dbTables db t of
        None \<Rightarrow> db
      | Some tb \<Rightarrow> db\<lparr>dbTables := (dbTables db)(t \<mapsto> tb\<lparr>rows := rs\<rparr>)\<rparr>)"










text \<open>
  The struct \<open>violation\<close> of \<open>deleteOrphans\<close>. \<open>rows.Scan\<close> reads the rowid and the
  number of the constraint into strings, and the rowid string is the parameter of the
  \<open>DELETE\<close>, where the engine compares it with the integer rowid: the model keeps the
  integers. \<open>Scan\<close> fails on a NULL.
\<close>

record violation =
  table :: string
  rowid :: int
  parent :: string
  fkid :: int



section \<open>The row loader\<close>

text \<open>
  What \<open>loadCSV\<close> asks of \<open>database/sql\<close> is a parameter: whether \<open>db.Begin\<close> and
  \<open>tx.Prepare\<close> of the query fail, what \<open>stmt.Exec\<close> does with the values of a row (an
  error, or the database with the row stored), and whether \<open>tx.Commit\<close> fails.
\<close>

record 'f sqlTx =
  txBegin :: "'f database \<Rightarrow> sqlError option"
  txPrepare :: "string \<Rightarrow> 'f database \<Rightarrow> sqlError option"
  stmtExec :: "string \<Rightarrow> 'f goValue list \<Rightarrow> 'f database \<Rightarrow> sqlError + 'f database"
  txCommit :: "'f database \<Rightarrow> sqlError option"

text \<open>Lines 57 to 61: the query, with the table name between quotes as it is.\<close>

definition insertQuery :: "tableSchema \<Rightarrow> string" where
  "insertQuery schema =
     ''INSERT INTO '' @ [DQ] @ tableSchema.name schema @ [DQ] @ '' VALUES (''
       @ Join (replicate (length (tableSchema.columns schema)) ''?'') '', '' @ '')''"

text \<open>
  Lines 91 to 98: one value for each column of the schema, NULL where the row has no
  field left.
\<close>

definition rowValues :: "(string \<Rightarrow> 'f option) \<Rightarrow> columnDef list \<Rightarrow> string list \<Rightarrow> 'f goValue list" where
  "rowValues parseFloat cols row =
     map (\<lambda>(i, col). if i < length row then convertValue parseFloat (row ! i) col else VNil)
       (enumerate 0 cols)"

fun insertRows :: "(string \<Rightarrow> 'f option) \<Rightarrow> 'f sqlTx \<Rightarrow> tableSchema \<Rightarrow> string list list
    \<Rightarrow> 'f database \<Rightarrow> sqlError + 'f database" where
  "insertRows parseFloat tx schema [] db = Inr db"
| "insertRows parseFloat tx schema (row # rest) db =
     (case stmtExec tx (insertQuery schema)
             (rowValues parseFloat (tableSchema.columns schema) row) db of
        Inl e \<Rightarrow> Inl e
      | Inr db' \<Rightarrow> insertRows parseFloat tx schema rest db')"

text \<open>
  \<open>loadCSV\<close>. The reader is \<open>csv.NewReader\<close> as it comes: \<open>FieldsPerRecord\<close> is 0, so
  the header sets the number of fields of every row. The rows read before an error are
  passed to \<open>stmt.Exec\<close> before the error is met. The transaction is rolled back on
  every error, so an error returns no database.
\<close>

definition loadCSV :: "(string \<Rightarrow> 'f option) \<Rightarrow> 'f sqlTx \<Rightarrow> 'f database \<Rightarrow> string
    \<Rightarrow> tableSchema \<Rightarrow> error + 'f database" where
  "loadCSV parseFloat tx db r schema =
     (case txBegin tx db of
        Some e \<Rightarrow> Inl (ErrBegin e)
      | None \<Rightarrow>
          (case txPrepare tx (insertQuery schema) db of
             Some e \<Rightarrow> Inl (ErrPrepare e)
           | None \<Rightarrow>
               (let br = (if prefix BOM r then drop 3 r else r) in
                case csvReadAll 0 br of
                  ([], e) \<Rightarrow> Inl (ErrCsv e)
                | (header # records, e) \<Rightarrow>
                    (case insertRows parseFloat tx schema records db of
                       Inl ie \<Rightarrow> Inl (ErrInsert ie)
                     | Inr db' \<Rightarrow>
                         (case e of
                            Some ce \<Rightarrow> Inl (ErrCsv (Some ce))
                          | None \<Rightarrow>
                              (case txCommit tx db' of
                                 Some e \<Rightarrow> Inl (ErrCommit e)
                               | None \<Rightarrow> Inr db'))))))"

section \<open>The integrity repair\<close>

text \<open>
  The functions below change the database and write log lines, and both stay when an
  error is returned: they return the error, if any, the database and the log.
\<close>

subsection \<open>deduplicateParents\<close>





subsection \<open>deleteOrphans\<close>




subsection \<open>Extract, from the repair on\<close>



section \<open>Notions used in the statements\<close>

subsection \<open>Notions used in the statement about the metadata parser\<close>

text \<open>
  The records that \<open>parseSchemas\<close> turns into columns: in the order of the archive,
  the records after the header of each file whose name ends in
  \<open>_CSV_DATA_STRUCTURE.csv\<close>, those with fewer than five fields left out.
  \<open>recordsOf t\<close> keeps the records of the table \<open>t\<close> (the first field, white space
  trimmed), and \<open>columnsOf tabs t\<close> is the column list of \<open>t\<close> in the returned map
  (empty when the map has no such table).
\<close>

definition structureFile :: "zipFile \<Rightarrow> bool" where
  "structureFile f \<longleftrightarrow> HasSuffix (Name f) ''_CSV_DATA_STRUCTURE.csv''"

definition fileRecords :: "zipFile \<Rightarrow> string list list" where
  "fileRecords f =
     (case data f of
        Content raw \<Rightarrow> tl (fst (csvReadAll (- 1) (normalizeCR raw)))
      | _ \<Rightarrow> [])"

definition metadataRecords :: "zipFile list \<Rightarrow> string list list" where
  "metadataRecords zr =
     filter (\<lambda>record. 5 \<le> length record) (concat (map fileRecords (filter structureFile zr)))"

definition recordsOf :: "string \<Rightarrow> string list list \<Rightarrow> string list list" where
  "recordsOf t records = filter (\<lambda>record. TrimSpace (record ! 0) = t) records"

definition columnsOf :: "tables \<Rightarrow> string \<Rightarrow> columnDef list" where
  "columnsOf tabs t = (case map_of tabs t of None \<Rightarrow> [] | Some ts \<Rightarrow> tableSchema.columns ts)"

definition nameAndType :: "columnDef \<Rightarrow> string \<times> string" where
  "nameAndType c = (columnDef.name c, dataType c)"

text \<open>An archive with a data file and a structure file of two tables and a short record.\<close>

definition exampleArchive :: "zipFile list" where
  "exampleArchive =
     [\<lparr>Name = ''APT_BASE.csv'', data = Content (''SITE_NO,LAT_DECIMAL'' @ [LF])\<rparr>,
      \<lparr>Name = ''APT_CSV_DATA_STRUCTURE.csv'',
       data = Content (''CSV File,Column Name,Max Length,Data Type,Nullable'' @ [CR, LF]
                 @ ''APT_BASE,SITE NO,9, VARCHAR,No'' @ [CR, LF]
                 @ ''APT_RWY,EFF DATE,10,DATE,No'' @ [CR, LF]
                 @ ''APT_BASE,no type'' @ [CR, LF]
                 @ ''APT_BASE,LAT DECIMAL,12,NUMBER ,Yes'' @ [CR, LF])\<rparr>]"


subsection \<open>Notions used in the statements about DDL synthesis\<close>

text \<open>
  The pair that names a unique index, and the constraints on which \<open>parentKey\<close>
  separates the pairs: no column name contains a comma and there is a column.
\<close>

definition keyPair :: "foreignKey \<Rightarrow> string \<times> string list" where
  "keyPair fk = (parentTable fk, foreignKey.columns fk)"

definition commaFree :: "foreignKey \<Rightarrow> bool" where
  "commaFree fk \<longleftrightarrow>
     foreignKey.columns fk \<noteq> [] \<and> (\<forall>c\<in>set (foreignKey.columns fk). CHR '','' \<notin> set c)"

text \<open>The two schemas of \<open>TestGenerateDDL\<close>.\<close>

definition testTables :: tables where
  "testTables =
     [(''TEST_CHILD'', \<lparr>tableSchema.name = ''TEST_CHILD'', columns =
         [\<lparr>columnDef.name = ''ID'', dataType = ''TEXT'', nullable = False\<rparr>,
          \<lparr>columnDef.name = ''BASE_ID'', dataType = ''TEXT'', nullable = False\<rparr>]\<rparr>),
      (''TEST_BASE'', \<lparr>tableSchema.name = ''TEST_BASE'', columns =
         [\<lparr>columnDef.name = ''ID'', dataType = ''TEXT'', nullable = False\<rparr>,
          \<lparr>columnDef.name = ''VALUE'', dataType = ''REAL'', nullable = True\<rparr>]\<rparr>)]"


subsection \<open>Notions used in the statement about reading index statements back\<close>

text \<open>
  A plain character is a printable ASCII character other than the double quote, the
  backslash, the comma and the parentheses. A constraint has a plain key when its parent
  table name is not empty, it has at least one column, and all these names are made of
  plain characters.
\<close>

definition plainChar :: "char \<Rightarrow> bool" where
  "plainChar c \<longleftrightarrow> 0x20 \<le> (of_char c :: nat) \<and> (of_char c :: nat) \<le> 0x7E
     \<and> c \<noteq> DQ \<and> c \<noteq> BSL \<and> c \<noteq> CHR '','' \<and> c \<noteq> CHR ''('' \<and> c \<noteq> CHR '')''"

definition plainKey :: "foreignKey \<Rightarrow> bool" where
  "plainKey fk \<longleftrightarrow>
     parentTable fk \<noteq> [] \<and> (\<forall>c\<in>set (parentTable fk). plainChar c)
     \<and> foreignKey.columns fk \<noteq> []
     \<and> (\<forall>col\<in>set (foreignKey.columns fk). \<forall>c\<in>set col. plainChar c)"

subsection \<open>Notions used in the statement about the row loader\<close>

text \<open>A schema of two nullable text columns.\<close>

definition twoColumns :: "columnDef list" where
  "twoColumns =
     [\<lparr>columnDef.name = ''A'', dataType = ''TEXT'', nullable = True\<rparr>,
      \<lparr>columnDef.name = ''B'', dataType = ''TEXT'', nullable = True\<rparr>]"

definition twoColumnSchema :: tableSchema where
  "twoColumnSchema = \<lparr>tableSchema.name = ''T'', columns = twoColumns\<rparr>"


subsection \<open>Notions used in the statements about the integrity repair\<close>


























section \<open>Properties\<close>

subsection \<open>Value coercion\<close>

text \<open>
  C5. Value coercion is this case analysis, on every column (the function has no
  sentinel list, so in particular on the columns outside it): the empty string on a
  nullable column is NULL; the empty string on a non-nullable column is the empty string;
  a non-empty value on a REAL column is the parsed number when \<open>ParseFloat\<close> accepts it
  and the original string when it does not; every other value is the original string.
\<close>

theorem convertValue_cases:
  "(val = [] \<and> nullable col \<longrightarrow> convertValue parseFloat val col = VNil) \<and>
   (val = [] \<and> \<not> nullable col \<longrightarrow> convertValue parseFloat val col = VString []) \<and>
   (val \<noteq> [] \<and> dataType col = ''REAL'' \<longrightarrow>
      (\<forall>f. parseFloat val = Some f \<longrightarrow> convertValue parseFloat val col = VFloat f) \<and>
      (parseFloat val = None \<longrightarrow> convertValue parseFloat val col = VString val)) \<and>
   (val \<noteq> [] \<and> dataType col \<noteq> ''REAL'' \<longrightarrow> convertValue parseFloat val col = VString val)"
  by (simp add: convertValue_def)

theorem convertValue_cases_witness:
  "convertValue (\<lambda>s. if s = ''123.45'' then Some (2469 / 20 :: rat) else None) ''''
      \<lparr>columnDef.name = ''X'', dataType = ''TEXT'', nullable = True\<rparr> = VNil \<and>
   convertValue (\<lambda>s. if s = ''123.45'' then Some (2469 / 20 :: rat) else None) ''''
      \<lparr>columnDef.name = ''X'', dataType = ''TEXT'', nullable = False\<rparr> = VString '''' \<and>
   convertValue (\<lambda>s. if s = ''123.45'' then Some (2469 / 20 :: rat) else None) ''123.45''
      \<lparr>columnDef.name = ''X'', dataType = ''REAL'', nullable = False\<rparr> = VFloat (2469 / 20) \<and>
   convertValue (\<lambda>s. if s = ''123.45'' then Some (2469 / 20 :: rat) else None) ''abc''
      \<lparr>columnDef.name = ''X'', dataType = ''REAL'', nullable = False\<rparr> = VString ''abc'' \<and>
   convertValue (\<lambda>s. if s = ''123.45'' then Some (2469 / 20 :: rat) else None) ''hello''
      \<lparr>columnDef.name = ''X'', dataType = ''TEXT'', nullable = False\<rparr> = VString ''hello''"
  using
    convertValue_cases [of "''''" "\<lparr>columnDef.name = ''X'', dataType = ''TEXT'', nullable = True\<rparr>"
      "\<lambda>s. if s = ''123.45'' then Some (2469 / 20 :: rat) else None"]
    convertValue_cases [of "''''" "\<lparr>columnDef.name = ''X'', dataType = ''TEXT'', nullable = False\<rparr>"
      "\<lambda>s. if s = ''123.45'' then Some (2469 / 20 :: rat) else None"]
    convertValue_cases [of "''123.45''" "\<lparr>columnDef.name = ''X'', dataType = ''REAL'', nullable = False\<rparr>"
      "\<lambda>s. if s = ''123.45'' then Some (2469 / 20 :: rat) else None"]
    convertValue_cases [of "''abc''" "\<lparr>columnDef.name = ''X'', dataType = ''REAL'', nullable = False\<rparr>"
      "\<lambda>s. if s = ''123.45'' then Some (2469 / 20 :: rat) else None"]
    convertValue_cases [of "''hello''" "\<lparr>columnDef.name = ''X'', dataType = ''TEXT'', nullable = False\<rparr>"
      "\<lambda>s. if s = ''123.45'' then Some (2469 / 20 :: rat) else None"]
  by simp

text \<open>
  C1. The override makes the sentinel column \<open>DP_BASE.DP_COMPUTER_CODE\<close> nullable, but
  \<open>convertValue\<close> has no case for the sentinel string: on the overridden column
  \<open>NOT ASSIGNED\<close> comes back as the string, not as NULL (the test
  \<open>TestConvertValue\<close> expects \<open>nil\<close>).
\<close>

theorem sentinel_string_kept:
  "parseSchemas [(''DP_BASE'', ''DP_COMPUTER_CODE'')]
     [\<lparr>Name = ''DP_CSV_DATA_STRUCTURE.csv'',
       data = Content (''CSV File,Column Name,Max Length,Data Type,Nullable'' @ [CR, LF]
                 @ ''DP_BASE,DP_COMPUTER_CODE,12,VARCHAR,No'' @ [CR, LF])\<rparr>]
     = Inr [(''DP_BASE'', \<lparr>tableSchema.name = ''DP_BASE'', columns =
               [\<lparr>columnDef.name = ''DP_COMPUTER_CODE'', dataType = ''TEXT'', nullable = True\<rparr>]\<rparr>)]
   \<and> convertValue parseFloat ''NOT ASSIGNED''
         \<lparr>columnDef.name = ''DP_COMPUTER_CODE'', dataType = ''TEXT'', nullable = True\<rparr>
       = VString ''NOT ASSIGNED''"
proof
  show "parseSchemas [(''DP_BASE'', ''DP_COMPUTER_CODE'')]
     [\<lparr>Name = ''DP_CSV_DATA_STRUCTURE.csv'',
       data = Content (''CSV File,Column Name,Max Length,Data Type,Nullable'' @ [CR, LF]
                 @ ''DP_BASE,DP_COMPUTER_CODE,12,VARCHAR,No'' @ [CR, LF])\<rparr>]
     = Inr [(''DP_BASE'', \<lparr>tableSchema.name = ''DP_BASE'', columns =
               [\<lparr>columnDef.name = ''DP_COMPUTER_CODE'', dataType = ''TEXT'', nullable = True\<rparr>]\<rparr>)]"
    by code_simp
next
  show "convertValue parseFloat ''NOT ASSIGNED''
         \<lparr>columnDef.name = ''DP_COMPUTER_CODE'', dataType = ''TEXT'', nullable = True\<rparr>
       = VString ''NOT ASSIGNED''"
    by (simp add: convertValue_def)
qed

subsection \<open>The metadata parser\<close>

lemma map_of_addColumn_eq:
  "map_of (addColumn k col tabs) t =
     (if t = k then
        Some (case map_of tabs k of
                None \<Rightarrow> \<lparr>tableSchema.name = k, columns = [col]\<rparr>
              | Some ts \<Rightarrow> ts\<lparr>tableSchema.columns := tableSchema.columns ts @ [col]\<rparr>)
      else map_of tabs t)"
  by (cases "map_of tabs k") (auto simp: addColumn_def map_of_map_entry map_add_def split: option.splits)

lemma columnsOf_addColumn:
  "columnsOf (addColumn k col tabs) t = columnsOf tabs t @ (if t = k then [col] else [])"
  by (cases "map_of tabs k") (simp_all add: columnsOf_def map_of_addColumn_eq)

lemma dom_addColumn: "dom (map_of (addColumn k col tabs)) = insert k (dom (map_of tabs))"
  by (auto simp: map_of_addColumn_eq dom_def)

lemma distinct_addColumn: "distinct (map fst tabs) \<Longrightarrow> distinct (map fst (addColumn k col tabs))"
  by (cases "map_of tabs k") (auto simp: addColumn_def distinct_map_entry dest: map_of_eq_None_iff [THEN iffD1])

lemma columnsOf_addRecord:
  "columnsOf (addRecord record tabs) t =
     columnsOf tabs t @ map recordColumn (recordsOf t (filter (\<lambda>record. 5 \<le> length record) [record]))"
  by (simp add: addRecord_def columnsOf_addColumn recordsOf_def)

lemma dom_addRecord:
  "dom (map_of (addRecord record tabs)) =
     dom (map_of tabs) \<union> (\<lambda>record. TrimSpace (record ! 0)) ` set (filter (\<lambda>record. 5 \<le> length record) [record])"
  by (simp add: addRecord_def dom_addColumn)

lemma distinct_addRecord: "distinct (map fst tabs) \<Longrightarrow> distinct (map fst (addRecord record tabs))"
  by (simp add: addRecord_def distinct_addColumn)

lemma columnsOf_fold:
  "columnsOf (fold addRecord records tabs) t =
     columnsOf tabs t @ map recordColumn (recordsOf t (filter (\<lambda>record. 5 \<le> length record) records))"
  by (induction records arbitrary: tabs) (simp_all add: columnsOf_addRecord recordsOf_def)

lemma dom_fold:
  "dom (map_of (fold addRecord records tabs)) =
     dom (map_of tabs) \<union> (\<lambda>record. TrimSpace (record ! 0)) ` set (filter (\<lambda>record. 5 \<le> length record) records)"
  by (induction records arbitrary: tabs) (auto simp: dom_addRecord)

lemma distinct_fold: "distinct (map fst tabs) \<Longrightarrow> distinct (map fst (fold addRecord records tabs))"
  by (induction records arbitrary: tabs) (simp_all add: distinct_addRecord)

lemma parseFile_records:
  "parseFile f tabs = Inr tabs' \<Longrightarrow> tabs' = fold addRecord (fileRecords f) tabs"
  by (auto simp: parseFile_def fileRecords_def split: zipData.splits prod.splits list.splits option.splits)

lemma parseFiles_records:
  "parseFiles zr tabs = Inr tabs' \<Longrightarrow>
     tabs' = fold addRecord (concat (map fileRecords (filter structureFile zr))) tabs"
proof (induction zr arbitrary: tabs)
  case Nil
  then show ?case by simp
next
  case (Cons f fs)
  show ?case
  proof (cases "structureFile f")
    case False
    with Cons show ?thesis by (simp add: structureFile_def)
  next
    case True
    with Cons.prems obtain tabs1 where 1: "parseFile f tabs = Inr tabs1" and 2: "parseFiles fs tabs1 = Inr tabs'"
      by (auto simp: structureFile_def split: sum.splits)
    from parseFile_records [OF 1] Cons.IH [OF 2] True show ?thesis by simp
  qed
qed

lemma map_of_overrideNullable:
  "map_of (overrideNullable key tabs) t =
     map_option (\<lambda>ts. if t = fst key then ts\<lparr>tableSchema.columns :=
          map (\<lambda>c. if columnDef.name c = snd key then c\<lparr>nullable := True\<rparr> else c)
            (tableSchema.columns ts)\<rparr> else ts) (map_of tabs t)"
  by (cases "map_of tabs t") (auto simp: overrideNullable_def map_of_map_entry)

lemma columnsOf_overrideNullable:
  "map nameAndType (columnsOf (overrideNullable key tabs) t) = map nameAndType (columnsOf tabs t)"
  by (cases "map_of tabs t") (auto simp: columnsOf_def map_of_overrideNullable nameAndType_def)

lemma dom_overrideNullable: "dom (map_of (overrideNullable key tabs)) = dom (map_of tabs)"
  by (auto simp: map_of_overrideNullable dom_def)

lemma distinct_overrideNullable: "distinct (map fst tabs) \<Longrightarrow> distinct (map fst (overrideNullable key tabs))"
  by (simp add: overrideNullable_def distinct_map_entry)

lemma columnsOf_overrides:
  "map nameAndType (columnsOf (fold overrideNullable keys tabs) t) = map nameAndType (columnsOf tabs t)"
  by (induction keys arbitrary: tabs) (simp_all add: columnsOf_overrideNullable)

lemma dom_overrides: "dom (map_of (fold overrideNullable keys tabs)) = dom (map_of tabs)"
  by (induction keys arbitrary: tabs) (simp_all add: dom_overrideNullable)

lemma distinct_overrides: "distinct (map fst tabs) \<Longrightarrow> distinct (map fst (fold overrideNullable keys tabs))"
  by (induction keys arbitrary: tabs) (simp_all add: distinct_overrideNullable)

lemma nameAndType_recordColumn:
  "nameAndType (recordColumn record) =
     (ReplaceAll_space_underscore (TrimSpace (record ! 1)),
      if TrimSpace (record ! 3) = ''VARCHAR'' then ''TEXT''
      else if TrimSpace (record ! 3) = ''NUMBER'' then ''REAL''
      else TrimSpace (record ! 3))"
  by (simp add: nameAndType_def recordColumn_def Let_def)

text \<open>
  C9. When \<open>parseSchemas\<close> returns, the tables of the returned map are the tables
  named by the metadata records, and the columns of each table are its records in order:
  the column of a record has the record's second field as its name (trimmed, spaces
  replaced by underscores) and as its type \<open>TEXT\<close> when the type token (the fourth
  field, white space trimmed) is \<open>VARCHAR\<close>, \<open>REAL\<close> when it is \<open>NUMBER\<close>, and
  the token itself otherwise. The sentinel override leaves names and types as they are.
\<close>

theorem parseSchemas_dataType:
  assumes "parseSchemas sentinelNulls zr = Inr tabs"
  shows "distinct (map fst tabs)
     \<and> fst ` set tabs = (\<lambda>record. TrimSpace (record ! 0)) ` set (metadataRecords zr)
     \<and> map (\<lambda>c. (columnDef.name c, dataType c)) (columnsOf tabs t) =
         map (\<lambda>record.
                (ReplaceAll_space_underscore (TrimSpace (record ! 1)),
                 if TrimSpace (record ! 3) = ''VARCHAR'' then ''TEXT''
                 else if TrimSpace (record ! 3) = ''NUMBER'' then ''REAL''
                 else TrimSpace (record ! 3)))
           (recordsOf t (metadataRecords zr))"
proof -
  from assms obtain tabs0 where p: "parseFiles zr [] = Inr tabs0"
    and t: "tabs = fold overrideNullable sentinelNulls tabs0"
    by (auto simp: parseSchemas_def split: sum.splits)
  note r = parseFiles_records [OF p]
  have 1: "distinct (map fst tabs)"
    unfolding t r by (intro distinct_overrides distinct_fold) simp
  have "dom (map_of tabs) = (\<lambda>record. TrimSpace (record ! 0)) ` set (metadataRecords zr)"
    unfolding t r by (simp add: dom_overrides dom_fold metadataRecords_def)
  then have 2: "fst ` set tabs = (\<lambda>record. TrimSpace (record ! 0)) ` set (metadataRecords zr)"
    by (simp add: dom_map_of_conv_image_fst)
  have "map nameAndType (columnsOf tabs t) =
      map nameAndType (map recordColumn (recordsOf t (metadataRecords zr)))"
    unfolding t r by (simp add: columnsOf_overrides columnsOf_fold metadataRecords_def, simp add: columnsOf_def)
  then have 3: "map (\<lambda>c. (columnDef.name c, dataType c)) (columnsOf tabs t) =
         map (\<lambda>record.
                (ReplaceAll_space_underscore (TrimSpace (record ! 1)),
                 if TrimSpace (record ! 3) = ''VARCHAR'' then ''TEXT''
                 else if TrimSpace (record ! 3) = ''NUMBER'' then ''REAL''
                 else TrimSpace (record ! 3)))
           (recordsOf t (metadataRecords zr))"
    by (simp add: nameAndType_def [abs_def] comp_def recordColumn_def Let_def)
  from 1 2 3 show ?thesis by (intro conjI)
qed

theorem parseSchemas_dataType_witness:
  "parseSchemas [] exampleArchive =
     Inr [(''APT_BASE'', \<lparr>tableSchema.name = ''APT_BASE'', columns =
             [\<lparr>columnDef.name = ''SITE_NO'', dataType = ''TEXT'', nullable = False\<rparr>,
              \<lparr>columnDef.name = ''LAT_DECIMAL'', dataType = ''REAL'', nullable = True\<rparr>]\<rparr>),
          (''APT_RWY'', \<lparr>tableSchema.name = ''APT_RWY'', columns =
             [\<lparr>columnDef.name = ''EFF_DATE'', dataType = ''DATE'', nullable = False\<rparr>]\<rparr>)]
   \<and> recordsOf ''APT_BASE'' (metadataRecords exampleArchive) =
       [[''APT_BASE'', ''SITE NO'', ''9'', '' VARCHAR'', ''No''],
        [''APT_BASE'', ''LAT DECIMAL'', ''12'', ''NUMBER '', ''Yes'']]
   \<and> recordsOf ''APT_RWY'' (metadataRecords exampleArchive) =
       [[''APT_RWY'', ''EFF DATE'', ''10'', ''DATE'', ''No'']]
   \<and> (\<exists>tabs. parseSchemas [] exampleArchive = Inr tabs
         \<and> map (\<lambda>c. (columnDef.name c, dataType c)) (columnsOf tabs ''APT_BASE'')
             = [(''SITE_NO'', ''TEXT''), (''LAT_DECIMAL'', ''REAL'')]
         \<and> map (\<lambda>c. (columnDef.name c, dataType c)) (columnsOf tabs ''APT_RWY'')
             = [(''EFF_DATE'', ''DATE'')]
         \<and> fst ` set tabs = {''APT_BASE'', ''APT_RWY''})"
proof -
  define tabs where "tabs =
     [(''APT_BASE'', \<lparr>tableSchema.name = ''APT_BASE'', columns =
             [\<lparr>columnDef.name = ''SITE_NO'', dataType = ''TEXT'', nullable = False\<rparr>,
              \<lparr>columnDef.name = ''LAT_DECIMAL'', dataType = ''REAL'', nullable = True\<rparr>]\<rparr>),
          (''APT_RWY'', \<lparr>tableSchema.name = ''APT_RWY'', columns =
             [\<lparr>columnDef.name = ''EFF_DATE'', dataType = ''DATE'', nullable = False\<rparr>]\<rparr>)]"
  have p: "parseSchemas [] exampleArchive = Inr tabs"
    unfolding tabs_def by code_simp
  have b: "recordsOf ''APT_BASE'' (metadataRecords exampleArchive) =
       [[''APT_BASE'', ''SITE NO'', ''9'', '' VARCHAR'', ''No''],
        [''APT_BASE'', ''LAT DECIMAL'', ''12'', ''NUMBER '', ''Yes'']]"
    by code_simp
  have r: "recordsOf ''APT_RWY'' (metadataRecords exampleArchive) =
       [[''APT_RWY'', ''EFF DATE'', ''10'', ''DATE'', ''No'']]"
    by code_simp
  have m: "(\<lambda>record. TrimSpace (record ! 0)) ` set (metadataRecords exampleArchive)
      = {''APT_BASE'', ''APT_RWY''}"
    by code_simp
  have t: "TrimSpace '' VARCHAR'' = ''VARCHAR''" "TrimSpace ''NUMBER '' = ''NUMBER''"
    "TrimSpace ''DATE'' = ''DATE''" "TrimSpace ''SITE NO'' = ''SITE NO''"
    "TrimSpace ''LAT DECIMAL'' = ''LAT DECIMAL''" "TrimSpace ''EFF DATE'' = ''EFF DATE''"
    "ReplaceAll_space_underscore ''SITE NO'' = ''SITE_NO''"
    "ReplaceAll_space_underscore ''LAT DECIMAL'' = ''LAT_DECIMAL''"
    "ReplaceAll_space_underscore ''EFF DATE'' = ''EFF_DATE''"
    by code_simp+
  from parseSchemas_dataType [OF p, of "''APT_BASE''"]
  have 1: "map (\<lambda>c. (columnDef.name c, dataType c)) (columnsOf tabs ''APT_BASE'')
             = [(''SITE_NO'', ''TEXT''), (''LAT_DECIMAL'', ''REAL'')]"
    unfolding b by (simp add: t)
  from parseSchemas_dataType [OF p, of "''APT_RWY''"]
  have 2: "map (\<lambda>c. (columnDef.name c, dataType c)) (columnsOf tabs ''APT_RWY'')
             = [(''EFF_DATE'', ''DATE'')]"
    unfolding r by (simp add: t)
  from parseSchemas_dataType [OF p, of "''APT_RWY''"]
  have 3: "fst ` set tabs = {''APT_BASE'', ''APT_RWY''}"
    unfolding m by (elim conjE)
  from p 1 2 3 have "\<exists>tabs. parseSchemas [] exampleArchive = Inr tabs
         \<and> map (\<lambda>c. (columnDef.name c, dataType c)) (columnsOf tabs ''APT_BASE'')
             = [(''SITE_NO'', ''TEXT''), (''LAT_DECIMAL'', ''REAL'')]
         \<and> map (\<lambda>c. (columnDef.name c, dataType c)) (columnsOf tabs ''APT_RWY'')
             = [(''EFF_DATE'', ''DATE'')]
         \<and> fst ` set tabs = {''APT_BASE'', ''APT_RWY''}"
    by (intro exI [of _ tabs] conjI)
  with p b r show ?thesis unfolding tabs_def by (intro conjI)
qed

text \<open>
  C8. \<open>parseSchemas\<close> does not strip a byte-order mark (\<open>loadCSV\<close> does). The mark
  reaches the record reader as the start of the header: a stream whose header begins
  with a quoted field parses without the mark and fails with it, and the empty stream
  fails without the mark and parses with it.
\<close>

theorem parseSchemas_keeps_BOM:
  "parseSchemas []
     [\<lparr>Name = ''APT_CSV_DATA_STRUCTURE.csv'',
       data = Content ([DQ] @ ''CSV File'' @ [DQ] @ '',Column Name,Max Length,Data Type,Nullable'' @ [LF]
                 @ ''APT_BASE,SITE NO,9,VARCHAR,No'' @ [LF])\<rparr>]
     = Inr [(''APT_BASE'', \<lparr>tableSchema.name = ''APT_BASE'', columns =
               [\<lparr>columnDef.name = ''SITE_NO'', dataType = ''TEXT'', nullable = False\<rparr>]\<rparr>)]
   \<and> parseSchemas []
     [\<lparr>Name = ''APT_CSV_DATA_STRUCTURE.csv'',
       data = Content (BOM @ [DQ] @ ''CSV File'' @ [DQ] @ '',Column Name,Max Length,Data Type,Nullable'' @ [LF]
                 @ ''APT_BASE,SITE NO,9,VARCHAR,No'' @ [LF])\<rparr>]
     = Inl (ErrReadHeader ''APT_CSV_DATA_STRUCTURE.csv'' (Some ErrBareQuote))
   \<and> parseSchemas [] [\<lparr>Name = ''APT_CSV_DATA_STRUCTURE.csv'', data = Content []\<rparr>]
     = Inl (ErrReadHeader ''APT_CSV_DATA_STRUCTURE.csv'' None)
   \<and> parseSchemas [] [\<lparr>Name = ''APT_CSV_DATA_STRUCTURE.csv'', data = Content BOM\<rparr>] = Inr []"
  by code_simp

subsection \<open>DDL synthesis\<close>

lemma uniqueIndexes_keys:
  "set (map parentKey (uniqueIndexes seen fks)) = set (map parentKey fks) - set seen"
  by (induction fks arbitrary: seen) (auto simp: Let_def)

lemma uniqueIndexes_distinct: "distinct (map parentKey (uniqueIndexes seen fks))"
proof (induction fks arbitrary: seen)
  case Nil
  then show ?case by simp
next
  case (Cons fk fks)
  have "parentKey fk \<notin> set (map parentKey (uniqueIndexes (parentKey fk # seen) fks))"
    by (simp only: uniqueIndexes_keys) simp
  with Cons show ?case
    by (auto simp: Let_def)
qed

lemma uniqueIndexes_subset: "set (uniqueIndexes seen fks) \<subseteq> set fks"
  by (induction fks arbitrary: seen) (auto simp: Let_def)

lemma Split_comma_nonempty: "Split_comma s \<noteq> []"
  by (induction s) (auto split: list.splits)

lemma Split_comma_no_comma: "CHR '','' \<notin> set x \<Longrightarrow> Split_comma (x @ CHR '','' # s) = x # Split_comma s"
  by (induction x) (auto split: list.splits simp: Split_comma_nonempty)

lemma Split_comma_single: "CHR '','' \<notin> set x \<Longrightarrow> Split_comma x = [x]"
  by (induction x) (auto split: list.splits)

lemma Split_comma_Join:
  "xs \<noteq> [] \<Longrightarrow> \<forall>x\<in>set xs. CHR '','' \<notin> set x \<Longrightarrow> Split_comma (Join xs '','') = xs"
proof (induction xs "'',''" rule: Join.induct)
  case 1
  then show ?case by simp
next
  case (2 x)
  then show ?case by (simp add: Split_comma_single)
next
  case (3 x y ys)
  then show ?case by (simp add: Split_comma_no_comma)
qed

lemma concat_singletons:
  "\<forall>x\<in>set xs. length (f x) = 1 \<Longrightarrow> length (concat (map f xs)) = length xs"
  by (induction xs) auto

lemma parentKey_keyPair: "keyPair a = keyPair b \<Longrightarrow> parentKey a = parentKey b"
  by (simp add: keyPair_def parentKey_def)

lemma parentKey_inj:
  assumes "commaFree a" "commaFree b" "parentKey a = parentKey b"
  shows "keyPair a = keyPair b"
proof -
  from assms have "Split_comma (Join (foreignKey.columns a) '','')
      = Split_comma (Join (foreignKey.columns b) '','')"
    by (simp add: parentKey_def)
  with assms(1,2) have "foreignKey.columns a = foreignKey.columns b"
    by (simp add: commaFree_def Split_comma_Join)
  with assms(3) show ?thesis
    by (simp add: keyPair_def parentKey_def)
qed

lemma createTables_length:
  "length (fst (generateDDL sortSlice quoteRunes tabs fks)) = length tabs"
proof -
  have "\<forall>n\<in>set (sort (map fst tabs)).
      length (case map_of tabs n of None \<Rightarrow> []
              | Some ts \<Rightarrow> [createTableStmt quoteRunes (fkMap fks n) ts]) = 1"
  proof
    fix n assume "n \<in> set (sort (map fst tabs))"
    then have "n \<in> fst ` set tabs" by simp
    then obtain ts where "map_of tabs n = Some ts"
      by (metis domD dom_map_of_conv_image_fst)
    then show "length (case map_of tabs n of None \<Rightarrow> []
              | Some ts \<Rightarrow> [createTableStmt quoteRunes (fkMap fks n) ts]) = 1"
      by simp
  qed
  then have "length (concat (map (\<lambda>n. case map_of tabs n of None \<Rightarrow> []
              | Some ts \<Rightarrow> [createTableStmt quoteRunes (fkMap fks n) ts]) (sort (map fst tabs))))
      = length (sort (map fst tabs))"
    by (rule concat_singletons)
  then show ?thesis by (simp add: generateDDL_def Let_def)
qed

text \<open>
  C6, as amended. Whatever order \<open>sort.Slice\<close> chooses, the index statements are those
  of a list \<open>us\<close> of constraints of the catalog with one constraint for each
  \<open>parentKey\<close> (parent table, columns joined by a comma) of the catalog. Where every
  column list is non-empty and no column name contains a comma, that is one constraint
  for each pair (parent table, columns). There is one table statement per schema.
\<close>

theorem generateDDL_one_index_per_key:
  assumes perm: "\<And>xs. mset (sortSlice xs) = mset xs"
  shows "\<exists>us. snd (generateDDL sortSlice quoteRunes tabs fks) = map (createIndexStmt quoteRunes) us
      \<and> set us \<subseteq> set fks
      \<and> distinct (map parentKey us)
      \<and> set (map parentKey us) = set (map parentKey fks)
      \<and> ((\<forall>fk\<in>set fks. commaFree fk) \<longrightarrow>
           distinct (map keyPair us) \<and> set (map keyPair us) = set (map keyPair fks))
      \<and> length (fst (generateDDL sortSlice quoteRunes tabs fks)) = length tabs"
proof -
  define us where "us = sortSlice (uniqueIndexes [] fks)"
  have m: "mset us = mset (uniqueIndexes [] fks)"
    by (simp add: us_def perm)
  then have s: "set us = set (uniqueIndexes [] fks)"
    by (rule mset_eq_setD)
  have sub: "set us \<subseteq> set fks"
    using s uniqueIndexes_subset by blast
  have "mset (map parentKey us) = mset (map parentKey (uniqueIndexes [] fks))"
    using m by simp
  then have "distinct (map parentKey us) \<longleftrightarrow> distinct (map parentKey (uniqueIndexes [] fks))"
    by (rule mset_eq_imp_distinct_iff)
  then have d: "distinct (map parentKey us)"
    using uniqueIndexes_distinct [of "[]" fks] by simp
  have "set (map parentKey us) = set (map parentKey (uniqueIndexes [] fks))"
    by (simp only: set_map s)
  also have "\<dots> = set (map parentKey fks)"
    by (simp only: uniqueIndexes_keys) simp
  finally have k: "set (map parentKey us) = set (map parentKey fks)" .
  have inj: "distinct (map keyPair us) \<and> set (map keyPair us) = set (map keyPair fks)"
    if cf: "\<forall>fk\<in>set fks. commaFree fk"
  proof
    have "distinct us" using d by (simp add: distinct_map)
    moreover have "inj_on keyPair (set us)"
    proof (rule inj_onI)
      fix a b assume ab: "a \<in> set us" "b \<in> set us" "keyPair a = keyPair b"
      from ab(3) have "parentKey a = parentKey b" by (rule parentKey_keyPair)
      moreover from d have "inj_on parentKey (set us)" by (simp add: distinct_map)
      ultimately show "a = b" using ab(1,2) by (simp add: inj_on_def)
    qed
    ultimately show "distinct (map keyPair us)" by (simp add: distinct_map)
  next
    show "set (map keyPair us) = set (map keyPair fks)"
    proof
      show "set (map keyPair us) \<subseteq> set (map keyPair fks)" using sub by auto
    next
      show "set (map keyPair fks) \<subseteq> set (map keyPair us)"
      proof
        fix p assume "p \<in> set (map keyPair fks)"
        then obtain a where a: "a \<in> set fks" "p = keyPair a" by auto
        then have "parentKey a \<in> set (map parentKey us)" using k by simp
        then obtain u where u: "u \<in> set us" "parentKey u = parentKey a" by auto
        have "commaFree u" "commaFree a" using cf a(1) u(1) sub by auto
        then have "keyPair u = keyPair a" using u(2) by (intro parentKey_inj)
        with u(1) a(2) show "p \<in> set (map keyPair us)" by (metis image_eqI set_map)
      qed
    qed
  qed
  have "snd (generateDDL sortSlice quoteRunes tabs fks) = map (createIndexStmt quoteRunes) us"
    by (simp add: generateDDL_def Let_def us_def)
  moreover note sub d k
  moreover have "(\<forall>fk\<in>set fks. commaFree fk) \<longrightarrow>
           distinct (map keyPair us) \<and> set (map keyPair us) = set (map keyPair fks)"
    using inj by simp
  moreover have "length (fst (generateDDL sortSlice quoteRunes tabs fks)) = length tabs"
    by (rule createTables_length)
  ultimately show ?thesis by (intro exI [of _ us] conjI)
qed

theorem generateDDL_one_index_per_key_witness:
  "\<exists>us. snd (generateDDL (sort_key parentTable) id testTables
            [FK ''TEST_CHILD'' [''BASE_ID''] ''TEST_BASE'', FK ''TEST_OTHER'' [''BASE_ID''] ''TEST_BASE''])
          = map (createIndexStmt id) us
      \<and> distinct (map keyPair us)
      \<and> set (map keyPair us) = {(''TEST_BASE'', [''BASE_ID''])}
      \<and> length (fst (generateDDL (sort_key parentTable) id testTables
            [FK ''TEST_CHILD'' [''BASE_ID''] ''TEST_BASE'', FK ''TEST_OTHER'' [''BASE_ID''] ''TEST_BASE''])) = 2"
proof -
  have p: "\<And>xs. mset (sort_key parentTable xs) = mset xs" by simp
  have c: "\<forall>fk\<in>set [FK ''TEST_CHILD'' [''BASE_ID''] ''TEST_BASE'', FK ''TEST_OTHER'' [''BASE_ID''] ''TEST_BASE'']. commaFree fk"
    by (simp add: commaFree_def FK_def)
  have k: "set (map keyPair [FK ''TEST_CHILD'' [''BASE_ID''] ''TEST_BASE'', FK ''TEST_OTHER'' [''BASE_ID''] ''TEST_BASE''])
      = {(''TEST_BASE'', [''BASE_ID''])}"
    by (simp add: keyPair_def FK_def)
  have l: "length testTables = 2" by (simp add: testTables_def)
  from generateDDL_one_index_per_key [of "sort_key parentTable" id testTables
      "[FK ''TEST_CHILD'' [''BASE_ID''] ''TEST_BASE'', FK ''TEST_OTHER'' [''BASE_ID''] ''TEST_BASE'']", OF p]
  obtain us where "snd (generateDDL (sort_key parentTable) id testTables
            [FK ''TEST_CHILD'' [''BASE_ID''] ''TEST_BASE'', FK ''TEST_OTHER'' [''BASE_ID''] ''TEST_BASE''])
          = map (createIndexStmt id) us"
     "distinct (map keyPair us)"
     "set (map keyPair us) = set (map keyPair [FK ''TEST_CHILD'' [''BASE_ID''] ''TEST_BASE'', FK ''TEST_OTHER'' [''BASE_ID''] ''TEST_BASE''])"
     "length (fst (generateDDL (sort_key parentTable) id testTables
            [FK ''TEST_CHILD'' [''BASE_ID''] ''TEST_BASE'', FK ''TEST_OTHER'' [''BASE_ID''] ''TEST_BASE''])) = length testTables"
    using c by blast
  then show ?thesis unfolding k l by blast
qed

text \<open>
  C6 as stated fails: the column lists \<open>["a,b"]\<close> and \<open>["a", "b"]\<close> are different
  but join to the same string, so the two pairs get one index statement.
\<close>

theorem generateDDL_pair_counterexample:
  "keyPair (FK ''C1'' [''a,b''] ''P'') \<noteq> keyPair (FK ''C2'' [''a'', ''b''] ''P'')
   \<and> snd (generateDDL (sort_key parentTable) id [] [FK ''C1'' [''a,b''] ''P'', FK ''C2'' [''a'', ''b''] ''P''])
      = [createIndexStmt id (FK ''C1'' [''a,b''] ''P'')]"
  by (simp add: keyPair_def FK_def generateDDL_def parentKey_def)

lemma concat_map_Some:
  "\<forall>n\<in>set ns. m n \<noteq> None \<Longrightarrow>
   concat (map (\<lambda>n. case m n of None \<Rightarrow> [] | Some ts \<Rightarrow> [f n ts]) ns)
     = map (\<lambda>n. f n (the (m n))) ns"
  by (induction ns) auto

lemma createTables_sorted_keys:
  "fst (generateDDL sortSlice quoteRunes tabs fks)
     = map (\<lambda>n. createTableStmt quoteRunes (fkMap fks n) (the (map_of tabs n)))
         (sort (map fst tabs))"
proof -
  have "\<forall>n\<in>set (sort (map fst tabs)). map_of tabs n \<noteq> None"
    by (simp add: map_of_eq_None_iff)
  then show ?thesis
    by (simp add: generateDDL_def Let_def concat_map_Some)
qed

text \<open>
  C7. The statement lists do not depend on the order in which Go iterates the map of
  tables: two association lists that hold the same map give the same two lists. The
  table statements are those of the map's entries in ascending order of table name.
\<close>

theorem generateDDL_deterministic:
  assumes "distinct (map fst tabs)" and "distinct (map fst tabs')" and "set tabs' = set tabs"
  shows "generateDDL sortSlice quoteRunes tabs' fks = generateDDL sortSlice quoteRunes tabs fks
    \<and> (\<exists>es. set es = set tabs \<and> sorted (map fst es) \<and> distinct (map fst es)
          \<and> fst (generateDDL sortSlice quoteRunes tabs fks)
              = map (\<lambda>e. createTableStmt quoteRunes (fkMap fks (fst e)) (snd e)) es)"
proof
  have "set (map fst tabs') = set (map fst tabs)"
    using assms(3) by simp
  then have "mset (map fst tabs') = mset (map fst tabs)"
    using assms(1,2) by (simp only: set_eq_iff_mset_eq_distinct)
  then have names: "sort (map fst tabs') = sort (map fst tabs)"
    by (intro properties_for_sort) simp_all
  have look: "map_of tabs' = map_of tabs"
    using assms by (simp only: map_of_inject_set)
  show "generateDDL sortSlice quoteRunes tabs' fks = generateDDL sortSlice quoteRunes tabs fks"
    by (simp only: generateDDL_def names look)
next
  define es where "es = map (\<lambda>n. (n, the (map_of tabs n))) (sort (map fst tabs))"
  have keys: "map fst es = sort (map fst tabs)"
    by (simp add: es_def comp_def)
  have "set es = set tabs"
  proof
    show "set es \<subseteq> set tabs"
    proof
      fix e assume "e \<in> set es"
      then obtain n where n: "n \<in> fst ` set tabs" "e = (n, the (map_of tabs n))"
        by (auto simp: es_def)
      then obtain ts where "(n, ts) \<in> set tabs" by auto
      with assms(1) have "map_of tabs n = Some ts" by simp
      with n \<open>(n, ts) \<in> set tabs\<close> show "e \<in> set tabs" by simp
    qed
  next
    show "set tabs \<subseteq> set es"
    proof
      fix e assume e: "e \<in> set tabs"
      then have "(fst e, snd e) \<in> set tabs" by simp
      with assms(1) have "map_of tabs (fst e) = Some (snd e)"
        by (rule map_of_is_SomeI)
      moreover have "fst e \<in> set (sort (map fst tabs))" using e by simp
      ultimately have "(fst e, snd e) \<in> set es"
        unfolding es_def by (metis (no_types, lifting) image_eqI option.sel set_map)
      then show "e \<in> set es" by simp
    qed
  qed
  moreover have "sorted (map fst es)" by (simp only: keys sorted_sort)
  moreover have "distinct (map fst es)" using assms(1) by (simp only: keys distinct_sort)
  moreover have "fst (generateDDL sortSlice quoteRunes tabs fks)
      = map (\<lambda>e. createTableStmt quoteRunes (fkMap fks (fst e)) (snd e)) es"
    by (simp add: createTables_sorted_keys es_def comp_def)
  ultimately show "\<exists>es. set es = set tabs \<and> sorted (map fst es) \<and> distinct (map fst es)
          \<and> fst (generateDDL sortSlice quoteRunes tabs fks)
              = map (\<lambda>e. createTableStmt quoteRunes (fkMap fks (fst e)) (snd e)) es"
    by blast
qed

theorem generateDDL_deterministic_witness:
  "generateDDL (sort_key parentTable) id (rev testTables) [FK ''TEST_CHILD'' [''BASE_ID''] ''TEST_BASE'']
     = generateDDL (sort_key parentTable) id testTables [FK ''TEST_CHILD'' [''BASE_ID''] ''TEST_BASE'']
   \<and> (\<exists>es. set es = set testTables \<and> sorted (map fst es) \<and> distinct (map fst es)
          \<and> fst (generateDDL (sort_key parentTable) id testTables [FK ''TEST_CHILD'' [''BASE_ID''] ''TEST_BASE''])
              = map (\<lambda>e. createTableStmt id (fkMap [FK ''TEST_CHILD'' [''BASE_ID''] ''TEST_BASE''] (fst e)) (snd e)) es)"
proof -
  have d: "distinct (map fst testTables)"
    by (simp add: testTables_def)
  then have d': "distinct (map fst (rev testTables))"
    by (simp only: rev_map [symmetric] distinct_rev)
  have s: "set (rev testTables) = set testTables"
    by (rule set_rev)
  from d d' s show ?thesis by (rule generateDDL_deterministic)
qed

subsection \<open>Reading an index statement back\<close>

lemma quoteByte_plain: "plainChar c \<Longrightarrow> quoteByte c = [c]"
  by (simp add: plainChar_def quoteByte_def)

lemma quoteBytes_plain: "\<forall>c\<in>set s. plainChar c \<Longrightarrow> quoteBytes quoteRunes [] s = s"
  by (induction s) (auto simp: quoteByte_plain plainChar_def)

lemma Quote_plain: "\<forall>c\<in>set s. plainChar c \<Longrightarrow> Quote quoteRunes s = DQ # s @ [DQ]"
  by (simp add: Quote_def quoteBytes_plain)

lemma set_Join: "set (Join xs sep) \<subseteq> (\<Union>x\<in>set xs. set x) \<union> set sep"
  by (induction xs sep rule: Join.induct) auto

lemma plain_not: "plainChar c \<Longrightarrow> c \<noteq> DQ \<and> c \<noteq> CHR '','' \<and> c \<noteq> CHR ''('' \<and> c \<noteq> CHR '')''"
  by (simp add: plainChar_def)

text \<open>The pieces of the matcher.\<close>

lemma expect_Cons: "expect c (x # r) = (if x = c then Some r else None)"
  by (simp add: expect_def)

lemma spaces1_one: "\<not> isReSpace y \<Longrightarrow> spaces1 (CHR '' '' # y # r) = Some (y # r)"
  by (simp add: spaces1_def isReSpace_def)

lemma takeWhile_stop: "c \<notin> set g \<Longrightarrow> takeWhile (\<lambda>x. x \<noteq> c) (g @ c # r) = g"
  by (induction g) auto

lemma dropWhile_stop: "c \<notin> set g \<Longrightarrow> dropWhile (\<lambda>x. x \<noteq> c) (g @ c # r) = c # r"
  by (induction g) auto

lemma upTo_stop:
  "g \<noteq> [] \<Longrightarrow> c \<notin> set g \<Longrightarrow> upTo c (g @ c # r) = Some (g, r)"
  by (simp add: upTo_def takeWhile_stop dropWhile_stop)

lemma matchAt_not_O: "c \<noteq> CHR ''O'' \<Longrightarrow> matchAt (c # s) = None"
  by (simp add: matchAt_def expect_def)

lemma Find_skip: "\<forall>c\<in>set xs. c \<noteq> CHR ''O'' \<Longrightarrow> FindStringSubmatch (xs @ s) = FindStringSubmatch s"
  by (induction xs) (auto simp: matchAt_not_O)

text \<open>After the spaces that follow a quote, the table name or its closing quote come: never a parenthesis.\<close>

lemma no_paren_after_spaces:
  assumes "CHR ''('' \<notin> set t"
  shows "Option.bind (spaces1 (t @ DQ # r)) (expect (CHR ''('')) = None"
proof (cases "takeWhile isReSpace (t @ DQ # r) = []")
  case True
  then show ?thesis by (simp add: spaces1_def)
next
  case False
  have nd: "\<not> isReSpace DQ" by (simp add: isReSpace_def)
  have "dropWhile isReSpace (t @ DQ # r) \<noteq> []"
    using nd by (metis dropWhile_eq_Nil_conv in_set_conv_decomp)
  then obtain y ys where y: "dropWhile isReSpace (t @ DQ # r) = y # ys"
    by (cases "dropWhile isReSpace (t @ DQ # r)") auto
  have "y \<noteq> CHR ''(''"
  proof (cases "dropWhile isReSpace t")
    case Nil
    then have "\<forall>x\<in>set t. isReSpace x" by (simp add: dropWhile_eq_Nil_conv)
    then have "dropWhile isReSpace (t @ DQ # r) = DQ # r"
      using nd by (simp add: dropWhile_append2)
    with y show ?thesis by auto
  next
    case (Cons z zs)
    then have "dropWhile isReSpace (t @ DQ # r) = (z # zs) @ DQ # r"
      by (metis dropWhile_append1 dropWhile_eq_Nil_conv list.distinct(1) dropWhile_append)
    with y have "y = z" by simp
    moreover have "z \<in> set t" using Cons by (metis list.set_intros(1) set_dropWhileD)
    ultimately show ?thesis using assms by auto
  qed
  with False y show ?thesis by (simp add: spaces1_def expect_def)
qed


lemma no_paren_after_spaces':
  assumes "CHR ''('' \<notin> set t" and "spaces1 (t @ DQ # r) = Some r'"
  shows "expect (CHR ''('') r' = None"
  using no_paren_after_spaces [OF assms(1), of r] assms(2) by simp

text \<open>Up to the first quote of a string, the matcher can only read \<open>ON\<close> and spaces.\<close>

lemma spaces1_to_quote:
  assumes "DQ \<notin> set w" and "spaces1 (w @ DQ # z) = Some r"
  shows "expect DQ r = None \<or> r = DQ # z"
proof (cases "dropWhile isReSpace w")
  case Nil
  then have "\<forall>x\<in>set w. isReSpace x" by (simp add: dropWhile_eq_Nil_conv)
  then have "dropWhile isReSpace (w @ DQ # z) = DQ # z"
    by (simp add: dropWhile_append2 isReSpace_def)
  with assms(2) show ?thesis by (simp add: spaces1_def split: if_splits)
next
  case (Cons y ys)
  then have d: "dropWhile isReSpace (w @ DQ # z) = y # ys @ DQ # z"
    by (metis dropWhile_append1 dropWhile_eq_Nil_conv list.distinct(1) dropWhile_append
        append_Cons)
  have "y \<in> set w" using Cons by (metis list.set_intros(1) set_dropWhileD)
  then have "y \<noteq> DQ" using assms(1) by auto
  moreover have "r = y # ys @ DQ # z"
    using assms(2) d by (simp add: spaces1_def split: if_splits)
  ultimately show ?thesis by (simp add: expect_Cons)
qed

lemma matchAt_inside_quotes:
  assumes v: "DQ \<notin> set v" and x: "DQ \<notin> set x" and t: "CHR ''('' \<notin> set t"
  shows "matchAt (v @ DQ # x @ DQ # t @ DQ # rest) = None"
proof (cases v)
  case Nil
  then show ?thesis by (simp add: matchAt_def expect_def)
next
  case (Cons a v')
  show ?thesis
  proof (cases v')
    case Nil
    with Cons show ?thesis by (simp add: matchAt_def expect_def)
  next
    case (Cons b w)
    have w: "DQ \<notin> set w" using v \<open>v = a # v'\<close> Cons by simp
    show ?thesis
    proof (cases "spaces1 (w @ DQ # x @ DQ # t @ DQ # rest)")
      case None
      with \<open>v = a # v'\<close> Cons show ?thesis by (simp add: matchAt_def expect_def)
    next
      case (Some r)
      from spaces1_to_quote [OF w Some] show ?thesis
      proof
        assume "expect DQ r = None"
        with Some \<open>v = a # v'\<close> Cons show ?thesis by (simp add: matchAt_def expect_def)
      next
        assume r: "r = DQ # x @ DQ # t @ DQ # rest"
        show ?thesis
        proof (cases "x = []")
          case True
          with r Some \<open>v = a # v'\<close> Cons show ?thesis
            by (simp add: matchAt_def expect_def upTo_def)
        next
          case False
          then have u: "upTo DQ (x @ DQ # t @ DQ # rest) = Some (x, t @ DQ # rest)"
            using x by (simp add: upTo_stop)
          show ?thesis
          proof (cases "spaces1 (t @ DQ # rest)")
            case None
            with u r Some \<open>v = a # v'\<close> Cons show ?thesis
              by (simp add: matchAt_def expect_Cons)
          next
            case (Some r')
            then have "expect (CHR ''('') r' = None"
              using t by (rule no_paren_after_spaces' [rotated])
            with Some u r \<open>spaces1 (w @ DQ # x @ DQ # t @ DQ # rest) = Some r\<close>
              \<open>v = a # v'\<close> Cons show ?thesis
              by (simp add: matchAt_def expect_Cons)
          qed
        qed
      qed
    qed
  qed
qed

lemma Find_inside_quotes:
  assumes "DQ \<notin> set v" and "DQ \<notin> set x" and "CHR ''('' \<notin> set t"
  shows "FindStringSubmatch (v @ DQ # x @ DQ # t @ DQ # rest)
     = FindStringSubmatch (DQ # x @ DQ # t @ DQ # rest)"
  using assms(1)
proof (induction v)
  case Nil
  then show ?case by simp
next
  case (Cons a v)
  then have "matchAt ((a # v) @ DQ # x @ DQ # t @ DQ # rest) = None"
    using assms(2,3) by (intro matchAt_inside_quotes) auto
  with Cons show ?case by simp
qed


lemma matchAt_statement:
  assumes "t \<noteq> []" "DQ \<notin> set t" "g \<noteq> []" "CHR '')'' \<notin> set g"
  shows "matchAt (''ON '' @ DQ # t @ DQ # '' ('' @ g @ '');'') = Some (t, g)"
proof -
  have 1: "spaces1 (CHR '' '' # DQ # t @ DQ # '' ('' @ g @ '');'') = Some (DQ # t @ DQ # '' ('' @ g @ '');'')"
    by (rule spaces1_one) (simp add: isReSpace_def)
  have 2: "upTo DQ (t @ DQ # '' ('' @ g @ '');'') = Some (t, '' ('' @ g @ '');'')"
    using assms(1,2) by (rule upTo_stop)
  have 3: "spaces1 (CHR '' '' # CHR ''('' # g @ '');'') = Some (CHR ''('' # g @ '');'')"
    by (rule spaces1_one) (simp add: isReSpace_def)
  have 4: "upTo (CHR '')'') (g @ CHR '')'' # '';'') = Some (g, '';'')"
    using assms(3,4) by (rule upTo_stop)
  show ?thesis
    using 1 2 3 4 by (simp add: matchAt_def expect_Cons)
qed

lemma Find_statement:
  assumes "DQ \<notin> set idx" "t \<noteq> []" "DQ \<notin> set t" "CHR ''('' \<notin> set t" "g \<noteq> []" "CHR '')'' \<notin> set g"
  shows "FindStringSubmatch (''CREATE UNIQUE INDEX '' @ (DQ # idx @ [DQ]) @ '' ON ''
            @ (DQ # t @ [DQ]) @ '' ('' @ g @ '');'') = Some (t, g)"
proof -
  let ?R = "''ON '' @ DQ # t @ DQ # '' ('' @ g @ '');''"
  have "FindStringSubmatch (''CREATE UNIQUE INDEX '' @ (DQ # idx @ [DQ]) @ '' ON ''
            @ (DQ # t @ [DQ]) @ '' ('' @ g @ '');'')
      = FindStringSubmatch ((''CREATE UNIQUE INDEX '' @ [DQ]) @ (idx @ DQ # '' ON '' @ DQ # t @ DQ # '' ('' @ g @ '');''))"
    by simp
  also have "\<dots> = FindStringSubmatch (idx @ DQ # '' ON '' @ DQ # t @ DQ # '' ('' @ g @ '');'')"
    by (rule Find_skip) simp
  also have "\<dots> = FindStringSubmatch (DQ # '' ON '' @ DQ # t @ DQ # '' ('' @ g @ '');'')"
    using assms(1) _ assms(4) by (rule Find_inside_quotes) simp
  also have "\<dots> = FindStringSubmatch ([DQ, CHR '' ''] @ ?R)"
    by simp
  also have "\<dots> = FindStringSubmatch ?R"
    by (rule Find_skip) simp
  also have "\<dots> = Some (t, g)"
    using matchAt_statement [OF assms(2,3,5,6)] by simp
  finally show ?thesis .
qed

text \<open>Splitting and trimming the column list.\<close>

lemma Split_comma_Join_sep:
  "CHR '','' \<notin> set p \<Longrightarrow> CHR '','' \<notin> set z \<Longrightarrow> \<forall>y\<in>set zs. CHR '','' \<notin> set y \<Longrightarrow>
   Split_comma (p @ Join (z # zs) '', '') = (p @ z) # map (\<lambda>y. CHR '' '' # y) zs"
proof (induction zs arbitrary: p z)
  case Nil
  then show ?case by (simp add: Split_comma_single)
next
  case (Cons y ys)
  have "Split_comma (p @ Join (z # y # ys) '', '')
      = Split_comma ((p @ z) @ CHR '','' # ([CHR '' ''] @ Join (y # ys) '', ''))"
    by simp
  also have "\<dots> = (p @ z) # Split_comma ([CHR '' ''] @ Join (y # ys) '', '')"
    using Cons.prems by (intro Split_comma_no_comma) simp
  also have "Split_comma ([CHR '' ''] @ Join (y # ys) '', '')
      = ([CHR '' ''] @ y) # map (\<lambda>y. CHR '' '' # y) ys"
    using Cons.prems by (intro Cons.IH) simp_all
  finally show ?case by simp
qed

lemma trimLeft_quote: "trimLeft (DQ # s) = DQ # s"
  by (subst trimLeft.simps) (simp add: spaceRunes_def)

lemma trimLeft_space_quote: "trimLeft (CHR '' '' # DQ # s) = DQ # s"
  by (subst trimLeft.simps) (simp add: spaceRunes_def trimLeft_quote)

lemma trimRight_quote: "trimRight (s @ [DQ]) = s @ [DQ]"
proof -
  have "\<not> suffix w (s @ [DQ])" if "w \<in> set spaceRunes" for w
  proof
    assume "suffix w (s @ [DQ])"
    then obtain u where "s @ [DQ] = u @ w" by (auto simp: suffix_def)
    moreover have "w \<noteq> []" using that by (rule spaceRunes_nonempty)
    ultimately have "last w = DQ" by (metis last_appendR last_snoc)
    moreover have "last w \<noteq> DQ" using that by (auto simp: spaceRunes_def)
    ultimately show False by simp
  qed
  then have "find (\<lambda>w. suffix w (s @ [DQ])) spaceRunes = None"
    by (simp add: find_None_iff)
  then show ?thesis by (subst trimRight.simps) simp
qed

lemma Trim_quote_quoted: "DQ \<notin> set c \<Longrightarrow> Trim_quote (DQ # c @ [DQ]) = c"
proof (cases c rule: rev_cases)
  case Nil
  then show ?thesis by (simp add: Trim_quote_def)
next
  case (snoc ys y)
  assume "DQ \<notin> set c"
  with snoc have y: "y \<noteq> DQ" and ys: "DQ \<notin> set ys" by auto
  have "dropWhile (\<lambda>c. c = DQ) (DQ # c @ [DQ]) = c @ [DQ]"
    using snoc y ys by (cases ys) auto
  then show ?thesis using snoc y by (simp add: Trim_quote_def)
qed

lemma trim_first: "DQ \<notin> set c \<Longrightarrow> Trim_quote (TrimSpace (DQ # c @ [DQ])) = c"
  using trimRight_quote [of "DQ # c"]
  by (simp add: TrimSpace_def trimLeft_quote Trim_quote_quoted)

lemma trim_next: "DQ \<notin> set c \<Longrightarrow> Trim_quote (TrimSpace (CHR '' '' # DQ # c @ [DQ])) = c"
  using trimRight_quote [of "DQ # c"]
  by (simp add: TrimSpace_def trimLeft_space_quote Trim_quote_quoted)

lemma Join_nonempty: "x \<noteq> [] \<Longrightarrow> Join (x # xs) sep \<noteq> []"
  by (cases xs) auto

lemma notin_Join: "\<forall>x\<in>set xs. c \<notin> set x \<Longrightarrow> c \<notin> set sep \<Longrightarrow> c \<notin> set (Join xs sep)"
  by (induction xs sep rule: Join.induct) auto

lemma plain_set_not:
  assumes "\<forall>c\<in>set s. plainChar c"
  shows "DQ \<notin> set s" "CHR '','' \<notin> set s" "CHR ''('' \<notin> set s" "CHR '')'' \<notin> set s"
  using assms by (auto simp: plainChar_def)

lemma plain_idxName:
  assumes "plainKey fk"
  shows "\<forall>c\<in>set (''idx_'' @ parentTable fk @ ''_'' @ Join (foreignKey.columns fk) ''_''). plainChar c"
proof
  fix c assume "c \<in> set (''idx_'' @ parentTable fk @ ''_'' @ Join (foreignKey.columns fk) ''_'')"
  then consider "c \<in> set ''idx_''" | "c \<in> set (parentTable fk)"
    | "c \<in> set (Join (foreignKey.columns fk) ''_'')"
    by auto
  then show "plainChar c"
  proof cases
    case 1
    then show ?thesis by (auto simp: plainChar_def)
  next
    case 2
    then show ?thesis using assms by (simp add: plainKey_def)
  next
    case 3
    then have "c \<in> (\<Union>x\<in>set (foreignKey.columns fk). set x) \<union> set ''_''"
      using set_Join by blast
    then consider col where "col \<in> set (foreignKey.columns fk)" "c \<in> set col" | "c = CHR ''_''"
      by auto
    then show ?thesis
    proof cases
      case 1
      with assms show ?thesis by (simp add: plainKey_def)
    next
      case 2
      then show ?thesis by (simp add: plainChar_def)
    qed
  qed
qed

lemma parse_back:
  assumes "plainKey fk"
  shows "parseUniqueIndex (createIndexStmt quoteRunes fk)
     = Inr (parentTable fk, foreignKey.columns fk)"
proof -
  let ?t = "parentTable fk"
  let ?q = "\<lambda>c. DQ # c @ [DQ]"
  obtain c1 cs where cols: "foreignKey.columns fk = c1 # cs"
    using assms by (cases "foreignKey.columns fk") (auto simp: plainKey_def)
  let ?idx = "''idx_'' @ ?t @ ''_'' @ Join (c1 # cs) ''_''"
  have pc: "\<forall>col\<in>set (c1 # cs). \<forall>c\<in>set col. plainChar c"
    using assms cols by (simp add: plainKey_def)
  have pt: "\<forall>c\<in>set ?t. plainChar c" "?t \<noteq> []"
    using assms by (simp_all add: plainKey_def)
  have pi: "\<forall>c\<in>set ?idx. plainChar c"
    using plain_idxName [OF assms] by (simp only: cols)
  have q1: "Quote quoteRunes ?idx = DQ # ?idx @ [DQ]"
    using pi by (rule Quote_plain)
  have q2: "Quote quoteRunes ?t = DQ # ?t @ [DQ]"
    using pt(1) by (rule Quote_plain)
  have qcols: "map (Quote quoteRunes) (c1 # cs) = map ?q (c1 # cs)"
    using pc by (intro map_cong refl Quote_plain) auto
  let ?g = "Join (map ?q (c1 # cs)) '', ''"
  have stmt: "createIndexStmt quoteRunes fk
      = ''CREATE UNIQUE INDEX '' @ (DQ # ?idx @ [DQ]) @ '' ON '' @ (DQ # ?t @ [DQ]) @ '' ('' @ ?g @ '');''"
    by (simp only: createIndexStmt_def quotedCols_def Let_def cols q1 q2 qcols)
  have g1: "?g \<noteq> []"
    by (simp only: list.map) (rule Join_nonempty, simp)
  have g2: "CHR '')'' \<notin> set ?g"
  proof (rule notin_Join)
    have "\<forall>x\<in>set (c1 # cs). CHR '')'' \<notin> set x"
      using pc by (simp add: plain_set_not)
    then show "\<forall>x\<in>set (map ?q (c1 # cs)). CHR '')'' \<notin> set x"
      by simp
    show "CHR '')'' \<notin> set '', ''" by simp
  qed
  have "FindStringSubmatch (createIndexStmt quoteRunes fk) = Some (?t, ?g)"
    unfolding stmt
  proof (rule Find_statement)
    show "DQ \<notin> set ?idx" using pi by (rule plain_set_not)
    show "?t \<noteq> []" by (rule pt(2))
    show "DQ \<notin> set ?t" using pt(1) by (rule plain_set_not)
    show "CHR ''('' \<notin> set ?t" using pt(1) by (rule plain_set_not)
    show "?g \<noteq> []" by (rule g1)
    show "CHR '')'' \<notin> set ?g" by (rule g2)
  qed
  moreover have "Split_comma ?g = ?q c1 # map (\<lambda>y. CHR '' '' # y) (map ?q cs)"
  proof -
    have "CHR '','' \<notin> set c1" "\<forall>y\<in>set cs. CHR '','' \<notin> set y"
      using pc by (simp_all add: plain_set_not)
    then have "CHR '','' \<notin> set (?q c1)" "\<forall>y\<in>set (map ?q cs). CHR '','' \<notin> set y"
      by simp_all
    then have "Split_comma ([] @ Join (?q c1 # map ?q cs) '', '')
        = ([] @ ?q c1) # map (\<lambda>y. CHR '' '' # y) (map ?q cs)"
      by (intro Split_comma_Join_sep) simp_all
    then show ?thesis by simp
  qed
  moreover have "map (\<lambda>col. Trim_quote (TrimSpace col)) (?q c1 # map (\<lambda>y. CHR '' '' # y) (map ?q cs))
      = c1 # cs"
  proof -
    have "DQ \<notin> set c1" using pc by (simp add: plain_set_not)
    then have "Trim_quote (TrimSpace (?q c1)) = c1" by (rule trim_first)
    moreover have "map (\<lambda>col. Trim_quote (TrimSpace col)) (map (\<lambda>y. CHR '' '' # y) (map ?q cs)) = cs"
    proof -
      have "\<forall>c\<in>set cs. DQ \<notin> set c" using pc by (simp add: plain_set_not)
      then have "\<forall>c\<in>set cs. Trim_quote (TrimSpace (CHR '' '' # ?q c)) = c"
        by (simp add: trim_next)
      then show ?thesis by (simp add: map_idI comp_def)
    qed
    ultimately show ?thesis by simp
  qed
  ultimately show ?thesis
    by (simp add: parseUniqueIndex_def cols)
qed

text \<open>
  C10, as amended. Every index statement that DDL synthesis emits for a catalog of
  constraints with plain keys is the statement of one of the constraints, and
  \<open>parseUniqueIndex\<close> reads the parent table and the columns of that constraint back
  from it, the columns in the same order.
\<close>

theorem index_statements_parse_back:
  assumes "\<And>xs. set (sortSlice xs) = set xs"
    and "\<forall>fk\<in>set fks. plainKey fk"
    and "stmt \<in> set (snd (generateDDL sortSlice quoteRunes tabs fks))"
  shows "\<exists>fk\<in>set fks. stmt = createIndexStmt quoteRunes fk
     \<and> parseUniqueIndex stmt = Inr (parentTable fk, foreignKey.columns fk)"
proof -
  from assms(3) have "stmt \<in> createIndexStmt quoteRunes ` set (sortSlice (uniqueIndexes [] fks))"
    by (simp add: generateDDL_def Let_def)
  then obtain fk where fk: "fk \<in> set (sortSlice (uniqueIndexes [] fks))"
      "stmt = createIndexStmt quoteRunes fk"
    by (rule imageE)
  from fk(1) have "fk \<in> set (uniqueIndexes [] fks)" by (simp only: assms(1))
  then have m: "fk \<in> set fks"
    using uniqueIndexes_subset [of "[]" fks] by (rule rev_subsetD)
  with assms(2) have "plainKey fk" by (rule bspec)
  then have "parseUniqueIndex (createIndexStmt quoteRunes fk)
      = Inr (parentTable fk, foreignKey.columns fk)"
    by (rule parse_back)
  then have "stmt = createIndexStmt quoteRunes fk
     \<and> parseUniqueIndex stmt = Inr (parentTable fk, foreignKey.columns fk)"
    by (simp only: fk(2) simp_thms)
  with m show ?thesis by (rule bexI [rotated])
qed

theorem index_statements_parse_back_witness:
  "parseUniqueIndex (createIndexStmt id (FK ''APT_RWY_END'' [''SITE_NO'', ''RWY_ID''] ''APT_RWY''))
     = Inr (''APT_RWY'', [''SITE_NO'', ''RWY_ID''])"
proof -
  let ?fk = "FK ''APT_RWY_END'' [''SITE_NO'', ''RWY_ID''] ''APT_RWY''"
  have p: "\<And>xs. set (sort_key parentTable xs) = set xs" by simp
  have k: "\<forall>fk\<in>set [?fk]. plainKey fk"
    by (simp add: FK_def plainKey_def plainChar_def)
  have s: "createIndexStmt id ?fk \<in> set (snd (generateDDL (sort_key parentTable) id [] [?fk]))"
    by (simp add: generateDDL_def)
  from index_statements_parse_back [OF p k s]
  have "parseUniqueIndex (createIndexStmt id ?fk) = Inr (parentTable ?fk, foreignKey.columns ?fk)"
    by simp
  then show ?thesis by (simp add: FK_def)
qed

text \<open>
  C10 as stated fails. A parent table \<open>A\B\<close> has no quote, comma or parenthesis, but
  \<open>%q\<close> doubles the backslash and the statement reads back as \<open>A\\B\<close>. With no
  column, or with an empty table name, the expression does not match at all.
\<close>

theorem parse_back_counterexample:
  "DQ \<notin> set [CHR ''A'', BSL, CHR ''B''] \<and> CHR '','' \<notin> set [CHR ''A'', BSL, CHR ''B'']
   \<and> CHR ''('' \<notin> set [CHR ''A'', BSL, CHR ''B''] \<and> CHR '')'' \<notin> set [CHR ''A'', BSL, CHR ''B'']
   \<and> snd (generateDDL (sort_key parentTable) id [] [FK ''C'' [''X''] [CHR ''A'', BSL, CHR ''B'']])
       = [createIndexStmt id (FK ''C'' [''X''] [CHR ''A'', BSL, CHR ''B''])]
   \<and> parseUniqueIndex (createIndexStmt id (FK ''C'' [''X''] [CHR ''A'', BSL, CHR ''B'']))
       = Inr ([CHR ''A'', BSL, BSL, CHR ''B''], [''X''])
   \<and> parseUniqueIndex (createIndexStmt id (FK ''C'' [] ''P''))
       = Inl (CannotParseIndexStatement (createIndexStmt id (FK ''C'' [] ''P'')))
   \<and> parseUniqueIndex (createIndexStmt id (FK ''C'' [''X''] ''''))
       = Inl (CannotParseIndexStatement (createIndexStmt id (FK ''C'' [''X''] '''')))"
  by code_simp

subsection \<open>The row loader\<close>

text \<open>
  C4. \<open>loadCSV\<close> rejects a data row that has fewer fields than the header: the reader
  keeps the field count of the header (\<open>FieldsPerRecord\<close> is 0) and returns
  \<open>ErrFieldCount\<close>, which \<open>loadCSV\<close> returns once the rows before it have been
  executed; whatever the engine does, nothing is returned but an error. Only when the
  header is as short as the row are the missing columns set to NULL and the row passed
  to \<open>stmt.Exec\<close>.
\<close>

theorem loadCSV_short_row_rejected:
  "loadCSV parseFloat tx db (''A,B'' @ [LF] @ ''1,2'' @ [LF] @ ''3'' @ [LF]) twoColumnSchema
     = (case txBegin tx db of
          Some e \<Rightarrow> Inl (ErrBegin e)
        | None \<Rightarrow>
            (case txPrepare tx (insertQuery twoColumnSchema) db of
               Some e \<Rightarrow> Inl (ErrPrepare e)
             | None \<Rightarrow>
                 (case stmtExec tx (insertQuery twoColumnSchema) [VString ''1'', VString ''2''] db of
                    Inl e \<Rightarrow> Inl (ErrInsert e)
                  | Inr db' \<Rightarrow> Inl (ErrCsv (Some ErrFieldCount)))))
   \<and> loadCSV parseFloat tx db (''A'' @ [LF] @ ''3'' @ [LF]) twoColumnSchema
     = (case txBegin tx db of
          Some e \<Rightarrow> Inl (ErrBegin e)
        | None \<Rightarrow>
            (case txPrepare tx (insertQuery twoColumnSchema) db of
               Some e \<Rightarrow> Inl (ErrPrepare e)
             | None \<Rightarrow>
                 (case stmtExec tx (insertQuery twoColumnSchema) [VString ''3'', VNil] db of
                    Inl e \<Rightarrow> Inl (ErrInsert e)
                  | Inr db' \<Rightarrow>
                      (case txCommit tx db' of
                         Some e \<Rightarrow> Inl (ErrCommit e)
                       | None \<Rightarrow> Inr db'))))"
proof -
  have r1: "csvReadAll 0 (''A,B'' @ [LF] @ ''1,2'' @ [LF] @ ''3'' @ [LF])
      = ([[''A'', ''B''], [''1'', ''2'']], Some ErrFieldCount)"
    by (simp add: csvReadAll_def csvRecords_def csvEmit_def)
  have r2: "csvReadAll 0 (''A'' @ [LF] @ ''3'' @ [LF]) = ([[''A''], [''3'']], None)"
    by (simp add: csvReadAll_def csvRecords_def csvEmit_def)
  have v1: "rowValues parseFloat twoColumns [''1'', ''2''] = [VString ''1'', VString ''2'']"
    by (simp add: rowValues_def twoColumns_def convertValue_def)
  have v2: "rowValues parseFloat twoColumns [''3''] = [VString ''3'', VNil]"
    by (simp add: rowValues_def twoColumns_def convertValue_def)
  have c: "tableSchema.columns twoColumnSchema = twoColumns"
    by (simp add: twoColumnSchema_def)
  have b: "\<not> prefix BOM (''A,B'' @ [LF] @ ''1,2'' @ [LF] @ ''3'' @ [LF])"
    "\<not> prefix BOM (''A'' @ [LF] @ ''3'' @ [LF])"
    by (simp_all add: BOM_def)
  show ?thesis
    by (simp only: loadCSV_def Let_def b if_False r1 r2 c v1 v2 insertRows.simps prod.case list.case)
       (simp split: option.splits sum.splits)
qed

subsection \<open>The orphan repair and the final check\<close>









subsection \<open>The duplicate repair\<close>



lemma setRows_Some:
  "dbTables db t = Some tb \<Longrightarrow>
   setRows t rs db = db\<lparr>dbTables := (dbTables db)(t \<mapsto> tb\<lparr>rows := rs\<rparr>)\<rparr>"
  by (simp add: setRows_def)

































end
